theory Spec2Isabelle
  imports Complex_Main "HOL-Library.Word" "HOL-Library.AList"
begin

section \<open>Sector files: bytes, streams and the height decoder\<close>

text \<open>
  A sector file is a sequence of bytes. Opening and reading the file can fail, so the
  functions that open a file take \<open>byte list option\<close>: \<open>None\<close> is a file that cannot be
  read (the source's \<open>open\<close> raises), \<open>Some data\<close> is its whole content.
  Heights are Python floats obtained by dividing an integer below \<open>2 ^ 16\<close> by \<open>128\<close>;
  that division is exact in binary floating point, so heights are modelled as rationals.
\<close>

type_synonym byte = "8 word"

type_synonym 'a array2 = "'a list list"

datatype error = ValueError | IndexError | AttributeError

definition grid_size :: nat where
  "grid_size = 65"

text \<open>\<open>int.from_bytes(data, 'little')\<close>.\<close>

fun from_bytes_little :: "byte list \<Rightarrow> nat" where
  "from_bytes_little [] = 0"
| "from_bytes_little (b # bs) = unat b + 256 * from_bytes_little bs"

text \<open>
  The inner loop of \<open>load_single_sector\<close> over \<open>x\<close>, on the stream \<open>terrain_data\<close>
  (the bytes not yet read): \<open>read(2)\<close> returns at most two bytes and advances the stream
  by what it returned; fewer than two bytes leave the loop (\<open>break\<close>); otherwise the
  height is appended and two more bytes are skipped. The result is the row and the
  stream after the loop.
\<close>

fun read_row :: "nat \<Rightarrow> byte list \<Rightarrow> rat list \<Rightarrow> rat list \<times> byte list" where
  "read_row 0 s row = (row, s)"
| "read_row (Suc n) s row =
     (let data = take 2 s; s1 = drop 2 s in
      if length data < 2 then (row, s1)
      else read_row n (drop 2 s1) (row @ [of_nat (from_bytes_little data) / 128]))"

text \<open>The outer loop over \<open>y\<close>: \<open>height_map[y] = row\<close> for every \<open>y\<close>, in order.\<close>

fun read_rows :: "nat \<Rightarrow> byte list \<Rightarrow> rat list list" where
  "read_rows 0 s = []"
| "read_rows (Suc n) s =
     (case read_row grid_size s [] of (row, s') \<Rightarrow> row # read_rows n s')"

text \<open>
  \<open>np.array\<close> of a list of rows: rows of one common length give a two-dimensional array;
  rows of different lengths raise \<open>ValueError\<close> (NumPy 1.24 and later; older versions
  built an array of objects with a deprecation warning, which is not modelled).
\<close>

definition np_array :: "rat list list \<Rightarrow> error + rat array2" where
  "np_array rows =
     (if \<forall>r \<in> set rows. length r = length (hd rows) then Inr rows else Inl ValueError)"

text \<open>
  \<open>load_single_sector\<close>: \<open>seek(708)\<close>, \<open>read(16900)\<close>, the two loops, \<open>np.array\<close>.
  Every exception is caught and turned into \<open>None\<close>.
\<close>

definition load_single_sector :: "byte list option \<Rightarrow> rat array2 option" where
  "load_single_sector file =
     (case file of
        None \<Rightarrow> None
      | Some content \<Rightarrow>
          (let terrain_data = take 16900 (drop 708 content) in
           case np_array (read_rows grid_size terrain_data) of
             Inl e \<Rightarrow> None
           | Inr height_array \<Rightarrow> Some height_array))"


section \<open>Water records\<close>

text \<open>
  \<open>struct.unpack('<f', ...)\<close> yields a Python float: the IEEE-754 single-precision
  value of the four bytes, converted exactly to double precision. The value is kept as
  sign and magnitude, so that \<open>-0.0\<close> and \<open>0.0\<close> stay distinct values that compare equal.
\<close>

datatype pyfloat = Finite bool rat | Infinity bool | NaN

definition unpack_f :: "byte list \<Rightarrow> pyfloat" where
  "unpack_f bs =
     (let bits = from_bytes_little bs;
          sign = (bits div 2 ^ 31) mod 2 = 1;
          e = (bits div 2 ^ 23) mod 256;
          m = bits mod 2 ^ 23
      in if e = 255 then (if m = 0 then Infinity sign else NaN)
         else if e = 0 then Finite sign (of_nat m / 2 ^ 149)
         else Finite sign (of_nat (2 ^ 23 + m) * 2 ^ e / 2 ^ 150))"

text \<open>Python's \<open>a != b\<close> on floats: a NaN differs from everything, zeros of both signs are equal.\<close>

fun float_ne :: "pyfloat \<Rightarrow> pyfloat \<Rightarrow> bool" where
  "float_ne NaN b = True"
| "float_ne a NaN = True"
| "float_ne (Finite s m) (Finite s' m') = ((if s then - m else m) \<noteq> (if s' then - m' else m'))"
| "float_ne (Infinity s) (Infinity s') = (s \<noteq> s')"
| "float_ne (Finite s m) (Infinity s') = True"
| "float_ne (Infinity s) (Finite s' m') = True"

definition float_zero :: pyfloat where
  "float_zero = Finite False 0"

text \<open>The class \<open>WaterData\<close>; the two path strings of the file are left out.\<close>

record water_record =
  sector_num :: int
  material_path :: "string option"
  has_water :: bool
  water_height :: pyfloat
  hex_offset_material :: "nat option"
  hex_offset_height :: "nat option"

definition WaterData :: "int \<Rightarrow> water_record" where
  "WaterData n =
     \<lparr>sector_num = n, material_path = None, has_water = False, water_height = float_zero,
      hex_offset_material = None, hex_offset_height = None\<rparr>"

text \<open>\<open>data.find(pattern)\<close>: the least position where the pattern starts, \<open>None\<close> for \<open>-1\<close>.\<close>

fun find_bytes :: "byte list \<Rightarrow> byte list \<Rightarrow> nat option" where
  "find_bytes pat [] = (if pat = [] then Some 0 else None)"
| "find_bytes pat (d # ds) =
     (if take (length pat) (d # ds) = pat then Some 0
      else map_option Suc (find_bytes pat ds))"

text \<open>\<open>data.find(pattern, start)\<close>.\<close>

definition find_bytes_from :: "byte list \<Rightarrow> byte list \<Rightarrow> nat \<Rightarrow> nat option" where
  "find_bytes_from pat data start =
     (if length data < start then None
      else map_option (\<lambda>i. i + start) (find_bytes pat (drop start data)))"

definition ascii :: "string \<Rightarrow> byte list" where
  "ascii s = map (\<lambda>c. of_nat (of_char c)) s"

text \<open>The two byte strings searched for; \<open>CHR 0x5C\<close> is the backslash.\<close>

definition water_patterns :: "byte list list" where
  "water_patterns =
     [ascii (''graphics'' @ [CHR 0x5C] @ ''_materials'' @ [CHR 0x5C] @ ''editor'' @ [CHR 0x5C] @ ''water_''),
      ascii (''graphics_materials'' @ [CHR 0x5C] @ ''editor'' @ [CHR 0x5C] @ ''water_'')]"

text \<open>The loop over the patterns: the first pattern found gives the position.\<close>

fun find_first_pattern :: "byte list list \<Rightarrow> byte list \<Rightarrow> nat option" where
  "find_first_pattern [] data = None"
| "find_first_pattern (pattern # rest) data =
     (case find_bytes pattern data of
        Some pos \<Rightarrow> Some pos
      | None \<Rightarrow> find_first_pattern rest data)"

text \<open>\<open>bytes.decode('latin-1', errors='ignore')\<close>: every byte is the character of its code.\<close>

definition decode_latin1 :: "byte list \<Rightarrow> string" where
  "decode_latin1 bs = map (\<lambda>b. char_of (unat b)) bs"

text \<open>
  \<open>parse_water_from_sector\<close>. A file that cannot be read leaves the fresh record (outer
  handler). Unpacking exactly four bytes, \<open>find\<close>, slicing and decoding do not raise, and
  console output is not modelled, so the inner handler is never entered.
\<close>

definition parse_water_from_sector :: "byte list option \<Rightarrow> int \<Rightarrow> water_record" where
  "parse_water_from_sector file n =
     (let water = WaterData n in
      case file of
        None \<Rightarrow> water
      | Some data \<Rightarrow>
          (let height_offset = 176 in
           if length data < height_offset + 4 then water
           else
             (let height_bytes = take 4 (drop height_offset data);
                  water = water\<lparr>water_height := unpack_f height_bytes,
                                hex_offset_height := Some height_offset\<rparr>
              in if float_ne (water_height water) float_zero then
                   (let water = water\<lparr>has_water := True\<rparr> in
                    case find_first_pattern water_patterns data of
                      None \<Rightarrow> water
                    | Some material_start \<Rightarrow>
                        (case find_bytes_from [0] data material_start of
                           Some material_end \<Rightarrow>
                             water\<lparr>material_path :=
                                      Some (decode_latin1
                                        (take (material_end - material_start) (drop material_start data))),
                                    hex_offset_material := Some material_start\<rparr>
                         | None \<Rightarrow>
                             water\<lparr>material_path :=
                                      Some (decode_latin1 (take 100 (drop material_start data))),
                                    hex_offset_material := Some material_start\<rparr>))
                 else water)))"

section \<open>Sector ordering\<close>

text \<open>
  The ten pattern names of the selection box, in the order of the source's comparisons;
  \<open>OtherPattern\<close> is any other string and takes the final \<open>else\<close>.
  \<^item> \<open>AvatarVertical\<close>: "Avatar Game Layout (2x2 blocks, vertical)"
  \<^item> \<open>AvatarHorizontal\<close>: "Avatar Game Layout - Horizontal"
  \<^item> \<open>AvatarNoSwap\<close>: "Avatar Game Layout - No Swap"
  \<^item> \<open>AvatarSwap03\<close>: "Avatar Game Layout - Swap 0<->3"
  \<^item> the others are named as in the source, without blanks.
\<close>

datatype order_pattern =
    AvatarVertical | AvatarHorizontal | AvatarNoSwap | AvatarSwap03
  | BottomLeftSequential | TopLeftSequential | BottomRightSequential | TopRightSequential
  | BottomLeftByColumn | TopLeftByColumn | OtherPattern

text \<open>Python's \<open>//\<close> and \<open>%\<close> round towards minus infinity, as \<open>div\<close> and \<open>mod\<close> on \<open>int\<close> do.\<close>

definition get_sector_index_from_position ::
  "order_pattern \<Rightarrow> int \<Rightarrow> int \<Rightarrow> int \<Rightarrow> int \<Rightarrow> int" where
  "get_sector_index_from_position pattern display_row col sectors_x sectors_y =
     (case pattern of
        AvatarVertical \<Rightarrow>
          (let block_col = col div 2; block_row = display_row div 2;
               within_block_col = col mod 2; within_block_row = display_row mod 2;
               blocks_per_column = sectors_y div 2;
               atlas_block_index = block_col * blocks_per_column + block_row;
               base_sector = atlas_block_index * 4;
               offset = (if within_block_row = 0 \<and> within_block_col = 0 then 0
                         else if within_block_row = 0 \<and> within_block_col = 1 then 2
                         else if within_block_row = 1 \<and> within_block_col = 0 then 1
                         else 3)
           in base_sector + offset)
      | AvatarHorizontal \<Rightarrow>
          (let block_col = col div 2; block_row = display_row div 2;
               within_block_col = col mod 2; within_block_row = display_row mod 2;
               blocks_per_row = sectors_x div 2;
               atlas_block_index = block_row * blocks_per_row + block_col;
               base_sector = atlas_block_index * 4;
               offset = (if within_block_row = 0 \<and> within_block_col = 0 then 0
                         else if within_block_row = 0 \<and> within_block_col = 1 then 2
                         else if within_block_row = 1 \<and> within_block_col = 0 then 1
                         else 3)
           in base_sector + offset)
      | AvatarNoSwap \<Rightarrow>
          (let block_col = col div 2; block_row = display_row div 2;
               within_block_col = col mod 2; within_block_row = display_row mod 2;
               blocks_per_column = sectors_y div 2;
               atlas_block_index = block_col * blocks_per_column + block_row;
               base_sector = atlas_block_index * 4;
               offset = (if within_block_row = 0 \<and> within_block_col = 0 then 0
                         else if within_block_row = 0 \<and> within_block_col = 1 then 1
                         else if within_block_row = 1 \<and> within_block_col = 0 then 2
                         else 3)
           in base_sector + offset)
      | AvatarSwap03 \<Rightarrow>
          (let block_col = col div 2; block_row = display_row div 2;
               within_block_col = col mod 2; within_block_row = display_row mod 2;
               blocks_per_column = sectors_y div 2;
               atlas_block_index = block_col * blocks_per_column + block_row;
               base_sector = atlas_block_index * 4;
               offset = (if within_block_row = 0 \<and> within_block_col = 0 then 3
                         else if within_block_row = 0 \<and> within_block_col = 1 then 1
                         else if within_block_row = 1 \<and> within_block_col = 0 then 2
                         else 0)
           in base_sector + offset)
      | BottomLeftSequential \<Rightarrow>
          (let sector_row = sectors_y - 1 - display_row in sector_row * sectors_x + col)
      | TopLeftSequential \<Rightarrow> display_row * sectors_x + col
      | BottomRightSequential \<Rightarrow>
          (let sector_row = sectors_y - 1 - display_row; sector_col = sectors_x - 1 - col
           in sector_row * sectors_x + sector_col)
      | TopRightSequential \<Rightarrow>
          (let sector_col = sectors_x - 1 - col in display_row * sectors_x + sector_col)
      | BottomLeftByColumn \<Rightarrow>
          (let sector_row = sectors_y - 1 - display_row in col * sectors_y + sector_row)
      | TopLeftByColumn \<Rightarrow> col * sectors_y + display_row
      | OtherPattern \<Rightarrow>
          (let sector_row = sectors_y - 1 - display_row in sector_row * sectors_x + col))"

text \<open>The cells of the display grid in the order of the two nested loops (rows, then columns).\<close>

definition grid_cells :: "int \<Rightarrow> int \<Rightarrow> (int \<times> int) list" where
  "grid_cells sectors_x sectors_y = List.product [0..sectors_y - 1] [0..sectors_x - 1]"


section \<open>The viewer and its arrays\<close>

text \<open>
  A two-dimensional NumPy array is the list of its rows. Texture pixels are three
  channel values in \<open>0..255\<close>. Dictionaries keyed by sector number are association lists
  in insertion order, read with \<open>map_of\<close> and written with \<open>AList.update\<close>.
  The arithmetic of the blending is done by NumPy in single precision; the model
  computes with exact rationals.
\<close>

type_synonym rgb = "nat \<times> nat \<times> nat"

datatype blend_mode = Linear | SmoothFeather | Gaussian | OtherMode

text \<open>
  The fields of \<open>TerrainViewer\<close> that loading and compositing read or write;
  \<open>sectors_x_var\<close> and \<open>sectors_y_var\<close> are the values of the Tk variables
  \<open>self.sectors_x\<close> and \<open>self.sectors_y\<close>, \<open>texture_layer_shadow\<close> says whether
  \<open>self.texture_layer\<close> is "shadow".
\<close>

record terrain_viewer =
  sectors_data :: "(int \<times> rat array2) list"
  water_data :: "(int \<times> water_record) list"
  sectors_textures :: "(int \<times> rgb array2) list"
  sectors_x_var :: int
  sectors_y_var :: int
  enable_textures :: bool
  enable_seam_blending :: bool
  seam_overlap_pixels :: int
  seam_blend_mode :: blend_mode
  sector_order_pattern :: order_pattern
  apply_pattern_to_heightmap :: bool
  texture_layer_shadow :: bool
  map_rotation :: int

definition bind_err :: "error + 'a \<Rightarrow> ('a \<Rightarrow> error + 'b) \<Rightarrow> error + 'b" where
  "bind_err m f = (case m of Inl e \<Rightarrow> Inl e | Inr x \<Rightarrow> f x)"

text \<open>\<open>np.zeros((h, w))\<close> and \<open>np.ones\<close>; a negative dimension raises \<open>ValueError\<close>.\<close>

definition np_zeros :: "int \<Rightarrow> int \<Rightarrow> error + rat array2" where
  "np_zeros h w =
     (if h < 0 \<or> w < 0 then Inl ValueError else Inr (replicate (nat h) (replicate (nat w) 0)))"

definition np_ones :: "nat \<Rightarrow> nat \<Rightarrow> rat array2" where
  "np_ones h w = replicate h (replicate w 1)"

definition np_flipud :: "'a array2 \<Rightarrow> 'a array2" where
  "np_flipud a = rev a"

definition np_fliplr :: "'a array2 \<Rightarrow> 'a array2" where
  "np_fliplr a = map rev a"

definition ncols :: "'a array2 \<Rightarrow> nat" where
  "ncols a = (case a of [] \<Rightarrow> 0 | r # rs \<Rightarrow> length r)"

definition np_transpose :: "'a array2 \<Rightarrow> 'a array2" where
  "np_transpose a = map (\<lambda>j. map (\<lambda>row. row ! j) a) [0..<ncols a]"

text \<open>
  \<open>np.rot90(m, k)\<close> on the first two axes, as NumPy defines it: \<open>k = 1\<close> is
  \<open>transpose(flip(m, 1))\<close>, \<open>k = 2\<close> is \<open>flip(flip(m, 0), 1)\<close>, \<open>k = 3\<close> is
  \<open>flip(transpose(m), 1)\<close>.
\<close>

definition np_rot90 :: "'a array2 \<Rightarrow> nat \<Rightarrow> 'a array2" where
  "np_rot90 m k =
     (if k mod 4 = 0 then m
      else if k mod 4 = 1 then np_transpose (np_fliplr m)
      else if k mod 4 = 2 then np_fliplr (np_flipud m)
      else np_fliplr (np_transpose m))"

text \<open>An index into an axis of length \<open>n\<close>: negative indices count from the end.\<close>

definition np_index :: "nat \<Rightarrow> int \<Rightarrow> error + nat" where
  "np_index n i =
     (let j = (if i < 0 then int n + i else i)
      in if 0 \<le> j \<and> j < int n then Inr (nat j) else Inl IndexError)"

text \<open>\<open>a[:, j] *= w\<close> and \<open>a[i, :] *= w\<close>.\<close>

definition mul_col :: "rat array2 \<Rightarrow> int \<Rightarrow> rat \<Rightarrow> error + rat array2" where
  "mul_col a j w =
     bind_err (np_index (ncols a) j) (\<lambda>k. Inr (map (\<lambda>r. r[k := r ! k * w]) a))"

definition mul_row :: "rat array2 \<Rightarrow> int \<Rightarrow> rat \<Rightarrow> error + rat array2" where
  "mul_row a i w =
     bind_err (np_index (length a) i) (\<lambda>k. Inr (a[k := map (\<lambda>v. v * w) (a ! k)]))"

section \<open>Seam blending\<close>

text \<open>The weight of one edge distance; \<open>/\<close> is Python's true division.\<close>

definition blend_weight :: "blend_mode \<Rightarrow> int \<Rightarrow> int \<Rightarrow> rat" where
  "blend_weight blend_mode edge_pixel overlap =
     (case blend_mode of
        Linear \<Rightarrow> of_int edge_pixel / of_int overlap
      | SmoothFeather \<Rightarrow>
          (let t = of_int edge_pixel / of_int overlap in t * t * (3 - 2 * t))
      | Gaussian \<Rightarrow>
          (let t = of_int edge_pixel / of_int overlap in t * t * t * (t * (t * 6 - 15) + 10))
      | OtherMode \<Rightarrow> of_int edge_pixel / of_int overlap)"

text \<open>One round of the feathering loop: left edge, right edge, top edge, bottom edge.\<close>

definition feather_step :: "blend_mode \<Rightarrow> int \<Rightarrow> int \<Rightarrow> rat array2 \<Rightarrow> error + rat array2" where
  "feather_step blend_mode overlap edge_pixel sector_weight =
     (let weight = blend_weight blend_mode edge_pixel overlap in
      bind_err (mul_col sector_weight edge_pixel weight) (\<lambda>sw1.
      bind_err (mul_col sw1 (- (edge_pixel + 1)) weight) (\<lambda>sw2.
      bind_err (mul_row sw2 edge_pixel weight) (\<lambda>sw3.
      mul_row sw3 (- (edge_pixel + 1)) weight))))"

fun feather :: "blend_mode \<Rightarrow> int \<Rightarrow> int list \<Rightarrow> rat array2 \<Rightarrow> error + rat array2" where
  "feather blend_mode overlap [] sector_weight = Inr sector_weight"
| "feather blend_mode overlap (edge_pixel # rest) sector_weight =
     bind_err (feather_step blend_mode overlap edge_pixel sector_weight)
       (feather blend_mode overlap rest)"

text \<open>The weight mask of a sector: ones, feathered for \<open>edge_pixel\<close> in \<open>range(overlap)\<close>.\<close>

definition sector_weight_mask :: "blend_mode \<Rightarrow> int \<Rightarrow> error + rat array2" where
  "sector_weight_mask blend_mode overlap =
     feather blend_mode overlap [0..overlap - 1] (np_ones grid_size grid_size)"

definition has_shape :: "nat \<Rightarrow> nat \<Rightarrow> 'a array2 \<Rightarrow> bool" where
  "has_shape h w a = (length a = h \<and> (\<forall>r \<in> set a. length r = w))"

text \<open>\<open>a[:h, :w] * b[:h, :w]\<close> for arrays of one shape.\<close>

definition mul_arrays :: "nat \<Rightarrow> nat \<Rightarrow> rat array2 \<Rightarrow> rat array2 \<Rightarrow> rat array2" where
  "mul_arrays h w a b = map (\<lambda>(r, r'). map (\<lambda>(v, v'). v * v') (zip (take w r) (take w r'))) (zip (take h a) (take h b))"

text \<open>\<open>a[oy:ey, ox:ex] += b\<close>, the region lying inside \<open>a\<close> and \<open>b\<close> having its shape.\<close>

definition add_slice :: "rat array2 \<Rightarrow> nat \<Rightarrow> nat \<Rightarrow> nat \<Rightarrow> nat \<Rightarrow> rat array2 \<Rightarrow> rat array2" where
  "add_slice a oy ey ox ex b =
     map (\<lambda>y. if oy \<le> y \<and> y < ey
              then map (\<lambda>x. if ox \<le> x \<and> x < ex then a ! y ! x + b ! (y - oy) ! (x - ox)
                            else a ! y ! x) [0..<length (a ! y)]
              else a ! y) [0..<length a]"

text \<open>
  The body of the two loops for one cell, on the pair of accumulators
  \<open>(combined, weights)\<close>, for a height map (\<open>is_texture = False\<close>, so no flip).
  An absent sector is skipped. The mask is built before anything is placed, so placing
  happens only when \<open>overlap\<close> is at most the grid size and all slice bounds are
  non-negative. Sector arrays come out of the loader with shape \<open>(65, 65)\<close> or
  \<open>(65, 0)\<close>; for any shape but the first the product with the mask raises
  \<open>ValueError\<close> (shapes that NumPy would broadcast are not modelled).
\<close>

definition blend_cell ::
  "terrain_viewer \<Rightarrow> (int \<times> rat array2) list \<Rightarrow> int \<Rightarrow> int \<Rightarrow> int \<times> int
     \<Rightarrow> rat array2 \<times> rat array2 \<Rightarrow> error + rat array2 \<times> rat array2" where
  "blend_cell self sectors_dict sectors_x sectors_y cell acc =
     (case (cell, acc) of ((display_row, col), (combined, weights)) \<Rightarrow>
      let overlap = seam_overlap_pixels self;
          effective_sector_size = int grid_size - overlap;
          total_width = sectors_x * effective_sector_size + overlap;
          total_height = sectors_y * effective_sector_size + overlap;
          sector_index =
            get_sector_index_from_position (sector_order_pattern self) display_row col sectors_x sectors_y
      in case map_of sectors_dict sector_index of
           None \<Rightarrow> Inr (combined, weights)
         | Some sector_data \<Rightarrow>
             (let out_y = display_row * effective_sector_size;
                  out_x = col * effective_sector_size
              in bind_err (sector_weight_mask (seam_blend_mode self) overlap) (\<lambda>sector_weight.
                 let end_y = min (out_y + int grid_size) total_height;
                     end_x = min (out_x + int grid_size) total_width;
                     sector_h = nat (end_y - out_y);
                     sector_w = nat (end_x - out_x)
                 in if \<not> has_shape grid_size grid_size sector_data then Inl ValueError
                    else Inr (add_slice combined (nat out_y) (nat end_y) (nat out_x) (nat end_x)
                                (mul_arrays sector_h sector_w sector_data sector_weight),
                              add_slice weights (nat out_y) (nat end_y) (nat out_x) (nat end_x)
                                (map (take sector_w) (take sector_h sector_weight))))))"


text \<open>The two nested loops, stopping at the first exception.\<close>

fun blend_cells ::
  "terrain_viewer \<Rightarrow> (int \<times> rat array2) list \<Rightarrow> int \<Rightarrow> int \<Rightarrow> (int \<times> int) list
     \<Rightarrow> rat array2 \<times> rat array2 \<Rightarrow> error + rat array2 \<times> rat array2" where
  "blend_cells self sectors_dict sectors_x sectors_y [] acc = Inr acc"
| "blend_cells self sectors_dict sectors_x sectors_y (cell # cells) acc =
     bind_err (blend_cell self sectors_dict sectors_x sectors_y cell acc)
       (blend_cells self sectors_dict sectors_x sectors_y cells)"

text \<open>\<open>weights = np.maximum(weights, 1e-10)\<close>, then \<open>combined /= weights\<close>.\<close>

definition normalize :: "rat array2 \<Rightarrow> rat array2 \<Rightarrow> rat array2" where
  "normalize combined weights =
     map (\<lambda>(r, ws). map (\<lambda>(v, w). v / max w (1 / 10 ^ 10)) (zip r ws)) (zip combined weights)"

text \<open>
  One channel of \<open>apply_seam_blending\<close> after the test of \<open>overlap\<close>: the output and
  weight arrays, the loops, the normalisation.
\<close>

definition seam_blend_plane ::
  "terrain_viewer \<Rightarrow> (int \<times> rat array2) list \<Rightarrow> int \<Rightarrow> int \<Rightarrow> error + rat array2" where
  "seam_blend_plane self sectors_dict sectors_x sectors_y =
     (let overlap = seam_overlap_pixels self;
          effective_sector_size = int grid_size - overlap;
          total_width = sectors_x * effective_sector_size + overlap;
          total_height = sectors_y * effective_sector_size + overlap
      in bind_err (np_zeros total_height total_width) (\<lambda>combined.
         bind_err (np_zeros total_height total_width) (\<lambda>weights.
         bind_err (blend_cells self sectors_dict sectors_x sectors_y
                     (grid_cells sectors_x sectors_y) (combined, weights))
           (\<lambda>(combined, weights). Inr (normalize combined weights)))))"

text \<open>\<open>apply_seam_blending(sectors_dict, sectors_x, sectors_y, is_texture=False)\<close>.\<close>

definition apply_seam_blending ::
  "terrain_viewer \<Rightarrow> (int \<times> rat array2) list \<Rightarrow> int \<Rightarrow> int \<Rightarrow> error + rat array2 option" where
  "apply_seam_blending self sectors_dict sectors_x sectors_y =
     (if seam_overlap_pixels self < 1 then Inr None
      else bind_err (seam_blend_plane self sectors_dict sectors_x sectors_y) (\<lambda>combined.
           Inr (Some combined)))"

text \<open>
  \<open>apply_seam_blending(..., is_texture=True)\<close>. Every sector is flipped unless the
  pattern is the vertical Avatar layout; the three channels are accumulated with the same
  masks, so each is blended as a plane of its own; \<open>np.clip(..., 0, 255).astype(np.uint8)\<close>
  cuts the fraction off.
\<close>

fun channel :: "nat \<Rightarrow> rgb \<Rightarrow> rat" where
  "channel c (r, g, b) = of_nat (if c = 0 then r else if c = 1 then g else b)"

definition to_uint8 :: "rat \<Rightarrow> nat" where
  "to_uint8 v = nat \<lfloor>max 0 (min 255 v)\<rfloor>"

definition merge_planes :: "rat array2 \<Rightarrow> rat array2 \<Rightarrow> rat array2 \<Rightarrow> rgb array2" where
  "merge_planes r g b =
     map (\<lambda>y. map (\<lambda>x. (to_uint8 (r ! y ! x), to_uint8 (g ! y ! x), to_uint8 (b ! y ! x)))
                [0..<length (r ! y)]) [0..<length r]"

definition texture_plane :: "order_pattern \<Rightarrow> nat \<Rightarrow> (int \<times> rgb array2) list \<Rightarrow> (int \<times> rat array2) list" where
  "texture_plane pattern c sectors_dict =
     map (\<lambda>(k, sector_data).
            (k, map (map (channel c))
                  (if pattern \<noteq> AvatarVertical then np_flipud sector_data else sector_data)))
         sectors_dict"

definition apply_seam_blending_texture ::
  "terrain_viewer \<Rightarrow> (int \<times> rgb array2) list \<Rightarrow> int \<Rightarrow> int \<Rightarrow> error + rgb array2 option" where
  "apply_seam_blending_texture self sectors_dict sectors_x sectors_y =
     (if seam_overlap_pixels self < 1 then Inr None
      else
        bind_err (seam_blend_plane self (texture_plane (sector_order_pattern self) 0 sectors_dict)
                    sectors_x sectors_y) (\<lambda>r.
        bind_err (seam_blend_plane self (texture_plane (sector_order_pattern self) 1 sectors_dict)
                    sectors_x sectors_y) (\<lambda>g.
        bind_err (seam_blend_plane self (texture_plane (sector_order_pattern self) 2 sectors_dict)
                    sectors_x sectors_y) (\<lambda>b.
        Inr (Some (merge_planes r g b))))))"

section \<open>Compositing: \<open>update_display\<close>\<close>

text \<open>
  What a composite request produces: the height buffer \<open>combined_map\<close>, the texture
  buffer \<open>combined_texture\<close> if there is one, and the lists \<open>displayed_sectors\<close> and
  \<open>missing_sectors\<close>, whose lengths the status line reports.
\<close>

record display =
  height_map :: "rat array2"
  texture_map :: "rgb array2 option"
  displayed :: "int list"
  missing :: "int list"

text \<open>
  \<open>a[oy:oy+65, ox:ox+65] = b\<close> with the region inside \<open>a\<close>: \<open>b\<close> must have the shape of
  the region, else \<open>ValueError\<close> (broadcasting of other shapes is not modelled).
\<close>

definition set_slice :: "'a array2 \<Rightarrow> nat \<Rightarrow> nat \<Rightarrow> 'a array2 \<Rightarrow> error + 'a array2" where
  "set_slice a oy ox b =
     (if \<not> has_shape grid_size grid_size b then Inl ValueError
      else Inr (map (\<lambda>y. if oy \<le> y \<and> y < oy + grid_size
                          then map (\<lambda>x. if ox \<le> x \<and> x < ox + grid_size
                                        then b ! (y - oy) ! (x - ox) else a ! y ! x)
                                 [0..<length (a ! y)]
                          else a ! y) [0..<length a]))"

text \<open>The body of the two loops of the standard assembly for one cell.\<close>

definition place_cell :: "terrain_viewer \<Rightarrow> int \<times> int \<Rightarrow> display \<Rightarrow> error + display" where
  "place_cell self cell d =
     (case cell of (display_row, col) \<Rightarrow>
      let heightmap_sector_index =
            (if apply_pattern_to_heightmap self
             then get_sector_index_from_position (sector_order_pattern self) display_row col
                    (sectors_x_var self) (sectors_y_var self)
             else (let sector_row = sectors_y_var self - 1 - display_row
                   in sector_row * sectors_x_var self + col));
          texture_sector_index =
            get_sector_index_from_position (sector_order_pattern self) display_row col
              (sectors_x_var self) (sectors_y_var self)
      in case map_of (sectors_data self) heightmap_sector_index of
           None \<Rightarrow> Inr (d\<lparr>missing := missing d @ [heightmap_sector_index]\<rparr>)
         | Some sector \<Rightarrow>
             (let start_y = nat display_row * grid_size;
                  start_x = nat col * grid_size;
                  current_pattern = sector_order_pattern self
              in bind_err
                   (if apply_pattern_to_heightmap self \<and> current_pattern = AvatarVertical
                    then set_slice (height_map d) start_y start_x sector
                    else set_slice (height_map d) start_y start_x (np_flipud sector))
                   (\<lambda>cm.
                 let d = d\<lparr>height_map := cm,
                           displayed := displayed d @ [heightmap_sector_index]\<rparr>
                 in case (texture_map d, map_of (sectors_textures self) texture_sector_index) of
                      (Some ct, Some texture) \<Rightarrow>
                        bind_err
                          (if texture_layer_shadow self then set_slice ct start_y start_x texture
                           else if current_pattern = AvatarVertical
                                then set_slice ct start_y start_x texture
                                else set_slice ct start_y start_x (np_flipud texture))
                          (\<lambda>ct. Inr (d\<lparr>texture_map := Some ct\<rparr>))
                    | _ \<Rightarrow> Inr d)))"

fun place_cells :: "terrain_viewer \<Rightarrow> (int \<times> int) list \<Rightarrow> display \<Rightarrow> error + display" where
  "place_cells self [] d = Inr d"
| "place_cells self (cell # cells) d = bind_err (place_cell self cell d) (place_cells self cells)"

text \<open>The rotation of the finished texture.\<close>

definition rotate_texture :: "int \<Rightarrow> 'a array2 \<Rightarrow> 'a array2" where
  "rotate_texture rotation texture =
     (if rotation \<noteq> 0 then
        (if rotation = 90 then np_rot90 texture 3
         else if rotation = 180 then np_rot90 texture 2
         else if rotation = 270 then np_rot90 texture 1
         else texture)
      else texture)"

text \<open>
  \<open>update_display\<close> up to the status line: \<open>Inr None\<close> is the early return on an empty
  collection, \<open>Inl\<close> an exception that leaves the function. A \<open>None\<close> from
  \<open>apply_seam_blending\<close> would fail at \<open>combined_map.copy()\<close>.
\<close>

definition update_display :: "terrain_viewer \<Rightarrow> error + display option" where
  "update_display self =
     (if sectors_data self = [] then Inr None
      else
        (let sectors_x = sectors_x_var self; sectors_y = sectors_y_var self;
             total_width = sectors_x * int grid_size;
             total_height = sectors_y * int grid_size
         in bind_err (np_zeros total_height total_width) (\<lambda>combined_map.
            let combined_texture =
                  (if enable_textures self \<and> sectors_textures self \<noteq> []
                   then Some (replicate (nat total_height) (replicate (nat total_width) (0, 0, 0)))
                   else None);
                d = \<lparr>height_map = combined_map, texture_map = combined_texture,
                     displayed = [], missing = []\<rparr>;
                use_seam_blending = (enable_seam_blending self \<and> seam_overlap_pixels self > 0)
            in bind_err
                 (if use_seam_blending then
                    bind_err
                      (if apply_pattern_to_heightmap self
                       then apply_seam_blending self (sectors_data self) sectors_x sectors_y
                       else apply_seam_blending self
                              (map (\<lambda>(sector_num, data). (sector_num, np_flipud data)) (sectors_data self))
                              sectors_x sectors_y)
                      (\<lambda>blended_map.
                    bind_err
                      (if combined_texture \<noteq> None \<and> sectors_textures self \<noteq> []
                       then apply_seam_blending_texture self (sectors_textures self) sectors_x sectors_y
                       else Inr combined_texture)
                      (\<lambda>blended_texture.
                    case blended_map of
                      None \<Rightarrow> Inl AttributeError
                    | Some cm \<Rightarrow>
                        Inr \<lparr>height_map = cm, texture_map = blended_texture,
                             displayed = map fst (sectors_data self),
                             missing = []\<rparr>))
                  else place_cells self (grid_cells sectors_x sectors_y) d)
                 (\<lambda>d. Inr (Some (d\<lparr>texture_map :=
                                      map_option (rotate_texture (map_rotation self))
                                        (texture_map d)\<rparr>))))))"

definition displayed_count :: "display \<Rightarrow> nat" where
  "displayed_count d = length (displayed d)"

definition missing_count :: "display \<Rightarrow> nat" where
  "missing_count d = length (missing d)"

section \<open>Loading a directory of sector files\<close>

text \<open>
  The loop of \<open>load_sectors\<close> over the files found. \<open>py_int\<close> stands for Python's
  \<open>int\<close> on the file name without its first two and last six characters (\<open>None\<close> when
  it raises \<open>ValueError\<close>, which skips the file), \<open>load_sector_texture\<close> for the texture
  loader of the same name. What follows the loop (the suggested grid size, the labels and
  the call of \<open>update_display\<close>) is not part of this function.
\<close>

definition load_file ::
  "(string \<Rightarrow> int option) \<Rightarrow> (int \<Rightarrow> rgb array2 option) \<Rightarrow> string \<times> byte list option
     \<Rightarrow> terrain_viewer \<Rightarrow> terrain_viewer" where
  "load_file py_int load_sector_texture entry self =
     (case entry of (filename, file) \<Rightarrow>
      case py_int (take (length filename - 6 - 2) (drop 2 filename)) of
        None \<Rightarrow> self
      | Some n \<Rightarrow>
          (case load_single_sector file of
             None \<Rightarrow> self
           | Some height_data \<Rightarrow>
               (let self = self\<lparr>sectors_data := AList.update n height_data (sectors_data self),
                                water_data := AList.update n (parse_water_from_sector file n)
                                                (water_data self)\<rparr>
                in if enable_textures self then
                     (case load_sector_texture n of
                        None \<Rightarrow> self
                      | Some texture \<Rightarrow>
                          self\<lparr>sectors_textures := AList.update n texture (sectors_textures self)\<rparr>)
                   else self)))"

definition load_sectors ::
  "(string \<Rightarrow> int option) \<Rightarrow> (int \<Rightarrow> rgb array2 option) \<Rightarrow> (string \<times> byte list option) list
     \<Rightarrow> terrain_viewer \<Rightarrow> terrain_viewer" where
  "load_sectors py_int load_sector_texture files self =
     fold (load_file py_int load_sector_texture) files
       (self\<lparr>sectors_data := [], water_data := [], sectors_textures := []\<rparr>)"


section \<open>Notions used in the statements\<close>

text \<open>
  The height grid in the words of the specification: after a header of 708 bytes, the
  cell in row \<open>y\<close> and column \<open>x\<close> takes four bytes; the first two are an unsigned
  16-bit integer, low byte first, and the height is that integer divided by 128; the
  other two are skipped.
\<close>

definition spec_height_grid :: "byte list \<Rightarrow> rat array2" where
  "spec_height_grid content =
     map (\<lambda>y. map (\<lambda>x. of_nat (unat (content ! (708 + 4 * (65 * y + x)))
                               + 256 * unat (content ! (708 + 4 * (65 * y + x) + 1))) / 128)
                [0..<65]) [0..<65]"

text \<open>The height of cell \<open>i\<close> of a stream, and the number of cells a row loop can read.\<close>

definition stream_cell :: "byte list \<Rightarrow> nat \<Rightarrow> rat" where
  "stream_cell s i = of_nat (from_bytes_little (take 2 (drop (4 * i) s))) / 128"

definition cells_readable :: "nat \<Rightarrow> byte list \<Rightarrow> nat" where
  "cells_readable n s = min n ((length s + 2) div 4)"

text \<open>The sector number the standard assembly looks up for the height of a cell.\<close>

definition heightmap_sector_index :: "terrain_viewer \<Rightarrow> int \<Rightarrow> int \<Rightarrow> int" where
  "heightmap_sector_index self display_row col =
     (if apply_pattern_to_heightmap self
      then get_sector_index_from_position (sector_order_pattern self) display_row col
             (sectors_x_var self) (sectors_y_var self)
      else (sectors_y_var self - 1 - display_row) * sectors_x_var self + col)"

text \<open>A viewer with nothing loaded, with the settings the program starts with and a 2 by 2 grid.\<close>

definition example_viewer :: terrain_viewer where
  "example_viewer =
     \<lparr>sectors_data = [], water_data = [], sectors_textures = [], sectors_x_var = 2,
      sectors_y_var = 2, enable_textures = False, enable_seam_blending = False,
      seam_overlap_pixels = 2, seam_blend_mode = SmoothFeather,
      sector_order_pattern = AvatarVertical, apply_pattern_to_heightmap = False,
      texture_layer_shadow = False, map_rotation = 270\<rparr>"

text \<open>A file that starts with the first water-material pattern and has a zero water height.\<close>

definition water_material_example :: "byte list" where
  "water_material_example = water_patterns ! 0 @ replicate 180 0"

text \<open>The four patterns that number the sectors by 2 by 2 blocks.\<close>

definition block_pattern :: "order_pattern \<Rightarrow> bool" where
  "block_pattern p = (p = AvatarVertical \<or> p = AvatarHorizontal \<or> p = AvatarNoSwap \<or> p = AvatarSwap03)"

text \<open>The array of \<open>h\<close> rows and \<open>w\<close> columns with the entry \<open>f y x\<close> in row \<open>y\<close> and column \<open>x\<close>.\<close>

definition tabulate2 :: "nat \<Rightarrow> nat \<Rightarrow> (nat \<Rightarrow> nat \<Rightarrow> 'a) \<Rightarrow> 'a array2" where
  "tabulate2 h w f = map (\<lambda>y. map (\<lambda>x. f y x) [0..<w]) [0..<h]"

text \<open>
  The factor that one round of the feathering loop with edge distance \<open>k\<close> and weight
  \<open>wt\<close> puts on the mask entry in row \<open>i\<close> and column \<open>j\<close>.
\<close>

definition edge_factor :: "rat \<Rightarrow> nat \<Rightarrow> nat \<Rightarrow> nat \<Rightarrow> rat" where
  "edge_factor wt k i j =
     (if j = k then wt else 1) * (if j = 64 - k then wt else 1) *
     (if i = k then wt else 1) * (if i = 64 - k then wt else 1)"

text \<open>The entry of the weight mask in row \<open>i\<close> and column \<open>j\<close>, all rounds taken together.\<close>

definition mask_value :: "blend_mode \<Rightarrow> int \<Rightarrow> nat \<Rightarrow> nat \<Rightarrow> rat" where
  "mask_value blend_mode overlap i j =
     prod_list (map (\<lambda>e. edge_factor (blend_weight blend_mode e overlap) (nat e) i j)
                  [0..overlap - 1])"

text \<open>
  What the sector of one cell adds to the weight and to the weighted sum of the output
  pixel in row \<open>y\<close> and column \<open>x\<close>: nothing when the sector is absent or the pixel lies
  outside its 65 by 65 footprint, which starts at \<open>(display_row, col) * (65 - overlap)\<close>.
\<close>

definition in_footprint :: "int \<Rightarrow> int \<times> int \<Rightarrow> nat \<Rightarrow> nat \<Rightarrow> bool" where
  "in_footprint overlap cell y x =
     (nat (fst cell * (65 - overlap)) \<le> y \<and> y < nat (fst cell * (65 - overlap)) + 65 \<and>
      nat (snd cell * (65 - overlap)) \<le> x \<and> x < nat (snd cell * (65 - overlap)) + 65)"

definition weight_contribution ::
  "terrain_viewer \<Rightarrow> (int \<times> rat array2) list \<Rightarrow> int \<Rightarrow> int \<Rightarrow> int \<times> int \<Rightarrow> nat \<Rightarrow> nat \<Rightarrow> rat" where
  "weight_contribution self sectors_dict sx sy cell y x =
     (case map_of sectors_dict
             (get_sector_index_from_position (sector_order_pattern self) (fst cell) (snd cell) sx sy) of
        None \<Rightarrow> 0
      | Some sector_data \<Rightarrow>
          if in_footprint (seam_overlap_pixels self) cell y x
          then mask_value (seam_blend_mode self) (seam_overlap_pixels self)
                 (y - nat (fst cell * (65 - seam_overlap_pixels self)))
                 (x - nat (snd cell * (65 - seam_overlap_pixels self)))
          else 0)"

definition value_contribution ::
  "terrain_viewer \<Rightarrow> (int \<times> rat array2) list \<Rightarrow> int \<Rightarrow> int \<Rightarrow> int \<times> int \<Rightarrow> nat \<Rightarrow> nat \<Rightarrow> rat" where
  "value_contribution self sectors_dict sx sy cell y x =
     (case map_of sectors_dict
             (get_sector_index_from_position (sector_order_pattern self) (fst cell) (snd cell) sx sy) of
        None \<Rightarrow> 0
      | Some sector_data \<Rightarrow>
          if in_footprint (seam_overlap_pixels self) cell y x
          then sector_data ! (y - nat (fst cell * (65 - seam_overlap_pixels self)))
                           ! (x - nat (snd cell * (65 - seam_overlap_pixels self)))
               * mask_value (seam_blend_mode self) (seam_overlap_pixels self)
                   (y - nat (fst cell * (65 - seam_overlap_pixels self)))
                   (x - nat (snd cell * (65 - seam_overlap_pixels self)))
          else 0)"

text \<open>The sums of the contributions of all cells of the grid.\<close>

definition accumulated_weight ::
  "terrain_viewer \<Rightarrow> (int \<times> rat array2) list \<Rightarrow> int \<Rightarrow> int \<Rightarrow> nat \<Rightarrow> nat \<Rightarrow> rat" where
  "accumulated_weight self sectors_dict sx sy y x =
     sum_list (map (\<lambda>cell. weight_contribution self sectors_dict sx sy cell y x) (grid_cells sx sy))"

definition accumulated_value ::
  "terrain_viewer \<Rightarrow> (int \<times> rat array2) list \<Rightarrow> int \<Rightarrow> int \<Rightarrow> nat \<Rightarrow> nat \<Rightarrow> rat" where
  "accumulated_value self sectors_dict sx sy y x =
     sum_list (map (\<lambda>cell. value_contribution self sectors_dict sx sy cell y x) (grid_cells sx sy))"

text \<open>The sector number that \<open>load_sectors\<close> reads off a file name.\<close>

definition file_sector_number :: "(string \<Rightarrow> int option) \<Rightarrow> string \<Rightarrow> int option" where
  "file_sector_number py_int filename = py_int (take (length filename - 6 - 2) (drop 2 filename))"

text \<open>A reading of digit strings that is enough for the file names of the examples.\<close>

definition example_int :: "string \<Rightarrow> int option" where
  "example_int s = (if s = ''0'' then Some 0 else if s = ''1'' then Some 1
                   else if s = ''2'' then Some 2 else None)"

text \<open>The starting viewer with a grid of two columns and one row.\<close>

definition example_row_viewer :: terrain_viewer where
  "example_row_viewer = example_viewer\<lparr>sectors_y_var := 1\<rparr>"

text \<open>
  Loading two files into that viewer: sector 0 is a full file of ones, sector 1 is cut
  off after 1000 bytes.
\<close>

definition example_loaded :: terrain_viewer where
  "example_loaded =
     load_sectors example_int (\<lambda>n. None)
       ([(''sd0.csdat'', Some (replicate 17608 1))] @ (''sd1.csdat'', Some (replicate 1000 0)) # [])
       example_row_viewer"

text \<open>Every sector and texture of the collection is a 65 by 65 array.\<close>

definition sectors_well_shaped :: "terrain_viewer \<Rightarrow> bool" where
  "sectors_well_shaped self =
     ((\<forall>(k, g) \<in> set (sectors_data self). has_shape 65 65 g) \<and>
      (\<forall>(k, t) \<in> set (sectors_textures self). has_shape 65 65 t))"

text \<open>
  A viewer with a grid of two by two sectors, seam blending switched on, and a collection
  that holds the sectors 0, 1 and 2 but not sector 3.
\<close>

definition seam_example :: terrain_viewer where
  "seam_example =
     example_viewer
       \<lparr>sectors_data := [(0, replicate 65 (replicate 65 1)), (1, replicate 65 (replicate 65 1)),
                         (2, replicate 65 (replicate 65 1))],
        enable_seam_blending := True\<rparr>"












section \<open>Arithmetic of cell counts\<close>

lemma div4_ge: "4 * k \<le> n \<Longrightarrow> k \<le> (n::nat) div 4"
  by (simp add: less_eq_div_iff_mult_less_eq mult.commute)

lemma div4_lt: "(n::nat) < 4 * k \<Longrightarrow> n div 4 < k"
  by (simp add: div_less_iff_less_mult mult.commute)

lemma div4_step: "2 \<le> (n::nat) \<Longrightarrow> (n + 2) div 4 = Suc ((n - 4 + 2) div 4)"
proof -
  assume a: "2 \<le> n"
  show ?thesis
  proof (cases "4 \<le> n")
    case True
    then have "n + 2 = (n - 4 + 2) + 4" by simp
    then have "(n + 2) div 4 = ((n - 4 + 2) + 4) div 4" by simp
    also have "\<dots> = Suc ((n - 4 + 2) div 4)" by (simp only: div_add_self2)
    finally show ?thesis .
  next
    case False
    with a have "n = 2 \<or> n = 3" by linarith
    then show ?thesis by auto
  qed
qed

lemma div4_drop:
  assumes "g \<le> ((n::nat) + 2) div 4"
  shows "(n - 4 * g + 2) div 4 = (n + 2) div 4 - g"
proof (cases "4 * g \<le> n")
  case True
  then have "n + 2 = (n - 4 * g + 2) + g * 4" by simp
  then have "(n + 2) div 4 = ((n - 4 * g + 2) + g * 4) div 4" by simp
  also have "\<dots> = g + (n - 4 * g + 2) div 4" by (simp only: div_mult_self1)
  finally show ?thesis by simp
next
  case False
  then have "n + 2 < 4 * Suc g" by simp
  then have "(n + 2) div 4 < Suc g" by (rule div4_lt)
  with assms have "(n + 2) div 4 = g" by simp
  moreover from False have "n - 4 * g = 0" by simp
  ultimately show ?thesis by simp
qed

section \<open>The height decoder\<close>

lemma stream_cell_drop4: "stream_cell (drop 4 s) i = stream_cell s (Suc i)"
  by (simp add: stream_cell_def add.commute)

lemma read_row_closed:
  "read_row n s row =
     (row @ map (stream_cell s) [0..<cells_readable n s],
      if cells_readable n s = n then drop (4 * n) s else [])"
proof (induction n arbitrary: s row)
  case 0
  then show ?case by (simp add: cells_readable_def)
next
  case (Suc n)
  show ?case
  proof (cases "length s < 2")
    case True
    then have "cells_readable (Suc n) s = 0" by (simp add: cells_readable_def)
    with True show ?thesis by simp
  next
    case False
    have k: "cells_readable (Suc n) s = Suc (cells_readable n (drop 4 s))"
      using False div4_step [of "length s"] by (simp add: cells_readable_def)
    have m: "map (stream_cell s) [0..<Suc (cells_readable n (drop 4 s))] =
             stream_cell s 0 # map (stream_cell (drop 4 s)) [0..<cells_readable n (drop 4 s)]"
      by (simp add: upt_conv_Cons map_Suc_upt [symmetric] stream_cell_drop4 del: upt_Suc)
    have c0: "stream_cell s 0 = of_nat (from_bytes_little (take 2 s)) / 128"
      by (simp add: stream_cell_def)
    from False show ?thesis
      by (simp add: Suc.IH k m c0 Let_def add.commute del: upt_Suc)
  qed
qed

lemma read_rows_closed:
  "read_rows m s =
     map (\<lambda>y. map (\<lambda>x. stream_cell s (grid_size * y + x))
                [0..<min grid_size ((length s + 2) div 4 - grid_size * y)]) [0..<m]"
proof (induction m arbitrary: s)
  case 0
  then show ?case by simp
next
  case (Suc m)
  let ?K = "(length s + 2) div 4"
  let ?k = "cells_readable grid_size s"
  let ?s' = "if ?k = grid_size then drop (4 * grid_size) s else []"
  have row: "read_row grid_size s [] = (map (stream_cell s) [0..<?k], ?s')"
    by (simp add: read_row_closed)
  have rest: "read_rows m ?s' =
        map (\<lambda>y. map (\<lambda>x. stream_cell s (grid_size * Suc y + x))
                [0..<min grid_size (?K - grid_size * Suc y)]) [0..<m]"
  proof (cases "?k = grid_size")
    case True
    then have K: "grid_size \<le> ?K" by (simp add: cells_readable_def)
    have K': "(length (drop (4 * grid_size) s) + 2) div 4 = ?K - grid_size"
      using div4_drop [OF K] by simp
    have c: "stream_cell (drop (4 * grid_size) s) i = stream_cell s (grid_size + i)" for i
      by (simp add: stream_cell_def algebra_simps)
    have "read_rows m (drop (4 * grid_size) s) =
        map (\<lambda>y. map (\<lambda>x. stream_cell (drop (4 * grid_size) s) (grid_size * y + x))
                [0..<min grid_size ((length (drop (4 * grid_size) s) + 2) div 4 - grid_size * y)]) [0..<m]"
      by (rule Suc.IH)
    also have "\<dots> = map (\<lambda>y. map (\<lambda>x. stream_cell s (grid_size * Suc y + x))
                [0..<min grid_size (?K - grid_size * Suc y)]) [0..<m]"
      unfolding K' c by (simp add: add.assoc)
    finally show ?thesis using True by simp
  next
    case False
    then have K: "?K < grid_size" by (simp add: cells_readable_def)
    then have z: "min grid_size (?K - grid_size * Suc y) = 0" for y by simp
    have "read_rows m [] = map (\<lambda>y. []) [0..<m]"
      by (simp add: Suc.IH)
    also have "\<dots> = map (\<lambda>y. map (\<lambda>x. stream_cell s (grid_size * Suc y + x))
                [0..<min grid_size (?K - grid_size * Suc y)]) [0..<m]"
      unfolding z by simp
    finally show ?thesis using False by simp
  qed
  have "read_rows (Suc m) s = map (stream_cell s) [0..<?k] # read_rows m ?s'"
    using row by simp
  also have "\<dots> = map (\<lambda>y. map (\<lambda>x. stream_cell s (grid_size * y + x))
                [0..<min grid_size (?K - grid_size * y)]) [0..<Suc m]"
    unfolding rest
    by (simp add: upt_conv_Cons map_Suc_upt [symmetric] cells_readable_def del: upt_Suc)
  finally show ?case .
qed


lemma take2_nth: "Suc i < length s \<Longrightarrow> take 2 (drop i s) = [s ! i, s ! Suc i]"
proof -
  assume a: "Suc i < length s"
  then have "drop i s = s ! i # drop (Suc i) s" by (simp add: Cons_nth_drop_Suc)
  moreover from a have "drop (Suc i) s = s ! Suc i # drop (Suc (Suc i)) s"
    by (simp add: Cons_nth_drop_Suc)
  ultimately show ?thesis by (simp add: numeral_2_eq_2)
qed

lemma stream_cell_content:
  assumes "4 * i + 1 < 16900" and "708 + 4 * i + 1 < length content"
  shows "stream_cell (take 16900 (drop 708 content)) i =
           of_nat (unat (content ! (708 + 4 * i)) + 256 * unat (content ! (708 + 4 * i + 1))) / 128"
proof -
  let ?s = "take 16900 (drop 708 content)"
  have len: "Suc (4 * i) < length ?s" using assms by simp
  have "take 2 (drop (4 * i) ?s) = [?s ! (4 * i), ?s ! Suc (4 * i)]"
    by (rule take2_nth [OF len])
  moreover have "?s ! (4 * i) = content ! (708 + 4 * i)" using assms by simp
  moreover have "?s ! Suc (4 * i) = content ! (708 + 4 * i + 1)" using assms by simp
  ultimately show ?thesis by (simp add: stream_cell_def)
qed

lemma rows_full:
  assumes "17606 \<le> length content"
  shows "read_rows grid_size (take 16900 (drop 708 content)) = spec_height_grid content"
proof -
  let ?s = "take 16900 (drop 708 content)"
  have len: "16898 \<le> length ?s" using assms by simp
  then have K: "4225 \<le> (length ?s + 2) div 4" by (intro div4_ge) simp
  have full: "min grid_size ((length ?s + 2) div 4 - grid_size * y) = 65" if "y < 65" for y
    using K that by (simp add: grid_size_def)
  have cellv: "stream_cell ?s (grid_size * y + x) =
        of_nat (unat (content ! (708 + 4 * (65 * y + x)))
                 + 256 * unat (content ! (708 + 4 * (65 * y + x) + 1))) / 128"
    if "y < 65" "x < 65" for y x
  proof -
    have "65 * y + x < 4225" using that by simp
    then have "4 * (65 * y + x) + 1 < 16900" "708 + 4 * (65 * y + x) + 1 < length content"
      using assms by simp_all
    then show ?thesis by (simp add: stream_cell_content grid_size_def)
  qed
  have "map (\<lambda>x. stream_cell ?s (grid_size * y + x))
            [0..<min grid_size ((length ?s + 2) div 4 - grid_size * y)] =
        map (\<lambda>x. of_nat (unat (content ! (708 + 4 * (65 * y + x)))
                 + 256 * unat (content ! (708 + 4 * (65 * y + x) + 1))) / 128) [0..<65]"
    if "y \<in> set [0..<65]" for y
  proof -
    from that have y: "y < 65" by simp
    show ?thesis unfolding full [OF y]
      by (rule map_cong [OF refl]) (simp only: cellv [OF y] set_upt atLeastLessThan_iff)
  qed
  then have "map (\<lambda>y. map (\<lambda>x. stream_cell ?s (grid_size * y + x))
            [0..<min grid_size ((length ?s + 2) div 4 - grid_size * y)]) [0..<65] =
        map (\<lambda>y. map (\<lambda>x. of_nat (unat (content ! (708 + 4 * (65 * y + x)))
                 + 256 * unat (content ! (708 + 4 * (65 * y + x) + 1))) / 128) [0..<65]) [0..<65]"
    by (rule map_cong [OF refl])
  then show ?thesis
    unfolding read_rows_closed spec_height_grid_def by (simp only: grid_size_def)
qed

lemma rows_empty:
  assumes "length content < 710"
  shows "read_rows grid_size (take 16900 (drop 708 content)) = replicate 65 []"
proof -
  let ?s = "take 16900 (drop 708 content)"
  have "length ?s < 2" using assms by simp
  then have K: "(length ?s + 2) div 4 = 0" by simp
  show ?thesis unfolding read_rows_closed K
    by (simp add: grid_size_def map_replicate_const)
qed

lemma stream_ragged:
  assumes "2 \<le> length s" and "length s < 16898"
  shows "np_array (read_rows grid_size s) = Inl ValueError"
proof -
  define K where "K = (length s + 2) div 4"
  define rows where "rows = read_rows grid_size s"
  have K: "1 \<le> K" "K < 4225"
    using assms unfolding K_def by (simp_all add: div4_ge div4_lt)
  have len: "length (rows ! y) = min 65 (K - 65 * y)" if "y < 65" for y
    using that unfolding rows_def K_def read_rows_closed by (simp add: grid_size_def)
  have n: "length rows = 65" unfolding rows_def read_rows_closed by (simp add: grid_size_def)
  then have hd0: "hd rows = rows ! 0" by (cases rows) simp_all
  have "\<exists>y < 65. length (rows ! y) \<noteq> length (rows ! 0)"
  proof (cases "65 \<le> K")
    case True
    then have "length (rows ! 64) \<noteq> length (rows ! 0)" using K by (simp add: len)
    then show ?thesis by (intro exI [of _ 64]) simp
  next
    case False
    then have "length (rows ! 1) \<noteq> length (rows ! 0)" using K by (simp add: len)
    then show ?thesis by (intro exI [of _ 1]) simp
  qed
  then obtain y where y: "y < 65" "length (rows ! y) \<noteq> length (hd rows)"
    using hd0 by auto
  then have "rows ! y \<in> set rows" using n by simp
  with y have "\<not> (\<forall>r \<in> set rows. length r = length (hd rows))" by blast
  then show ?thesis by (simp add: np_array_def rows_def)
qed

lemma rows_ragged:
  assumes "710 \<le> length content" and "length content < 17606"
  shows "np_array (read_rows grid_size (take 16900 (drop 708 content))) = Inl ValueError"
  by (rule stream_ragged) (use assms in simp_all)

lemma spec_height_grid_shape:
  "length (spec_height_grid content) = 65" "r \<in> set (spec_height_grid content) \<Longrightarrow> length r = 65"
  by (auto simp: spec_height_grid_def)

lemma load_single_sector_unfold:
  "load_single_sector (Some content) =
     (case np_array (read_rows grid_size (take 16900 (drop 708 content))) of
        Inl e \<Rightarrow> None | Inr height_array \<Rightarrow> Some height_array)"
  by (simp only: load_single_sector_def Let_def option.case)

lemma load_single_sector_full:
  assumes "17606 \<le> length content"
  shows "load_single_sector (Some content) = Some (spec_height_grid content)"
proof -
  have "spec_height_grid content \<noteq> []"
    using spec_height_grid_shape(1) [of content] by auto
  then have "hd (spec_height_grid content) \<in> set (spec_height_grid content)"
    by (rule hd_in_set)
  then have "length (hd (spec_height_grid content)) = 65"
    by (rule spec_height_grid_shape(2))
  then have "np_array (spec_height_grid content) = Inr (spec_height_grid content)"
    by (simp add: np_array_def spec_height_grid_shape)
  then show ?thesis
    by (simp only: load_single_sector_unfold rows_full [OF assms] sum.case)
qed

lemma load_single_sector_tiny:
  assumes "length content < 710"
  shows "load_single_sector (Some content) = Some (replicate 65 [])"
proof -
  have "np_array (replicate 65 []) = Inr (replicate 65 [])"
    by (simp add: np_array_def)
  then show ?thesis
    by (simp only: load_single_sector_unfold rows_empty [OF assms] sum.case)
qed

lemma load_single_sector_truncated:
  assumes "710 \<le> length content" and "length content < 17606"
  shows "load_single_sector (Some content) = None"
  by (simp only: load_single_sector_unfold rows_ragged [OF assms] sum.case)

lemma from_bytes_little_two: "length bs \<le> 2 \<Longrightarrow> from_bytes_little bs \<le> 65535"
proof -
  assume a: "length bs \<le> 2"
  have u: "unat (b :: byte) \<le> 255" for b
    using unsigned_less [of b, where ?'a = nat] by simp
  from a consider "bs = []" | b where "bs = [b]" | b c where "bs = [b, c]"
    by (cases bs; cases "tl bs"; cases "tl (tl bs)") auto
  then show ?thesis
  proof cases
    case 1 then show ?thesis by simp
  next
    case 2 then show ?thesis using u [of b] by simp
  next
    case 3 then show ?thesis using u [of b] u [of c] by simp
  qed
qed

lemma stream_cell_range:
  "0 \<le> stream_cell s i \<and> stream_cell s i \<le> 65535 / 128 \<and>
   (\<exists>k::nat. k \<le> 65535 \<and> stream_cell s i = of_nat k / 128)"
proof -
  let ?k = "from_bytes_little (take 2 (drop (4 * i) s))"
  have k: "?k \<le> 65535" by (rule from_bytes_little_two) simp
  then have "(of_nat ?k :: rat) \<le> of_nat 65535" by (simp only: of_nat_le_iff)
  then have "(of_nat ?k :: rat) / 128 \<le> 65535 / 128" by (simp add: divide_right_mono)
  moreover have "0 \<le> (of_nat ?k :: rat) / 128" by simp
  ultimately show ?thesis using k unfolding stream_cell_def by blast
qed

lemma read_rows_elements:
  assumes "r \<in> set (read_rows m s)" and "h \<in> set r"
  shows "\<exists>i. h = stream_cell s i"
  using assms unfolding read_rows_closed by auto

lemma load_single_sector_rows:
  assumes "load_single_sector file = Some grid"
  shows "\<exists>s. grid = read_rows grid_size s"
  using assms
  by (auto simp: load_single_sector_def np_array_def Let_def split: option.splits if_splits)

text \<open>
  Claim C10. Whenever a file decodes, every height of the grid lies between \<open>0\<close> and
  \<open>65535 / 128\<close> and is a whole multiple of \<open>1 / 128\<close>.
\<close>

theorem decoded_heights_in_range:
  assumes "load_single_sector file = Some grid" and "r \<in> set grid" and "h \<in> set r"
  shows "0 \<le> h \<and> h \<le> 65535 / 128 \<and> (\<exists>k::nat. k \<le> 65535 \<and> h = of_nat k / 128)"
proof -
  from assms(1) obtain s where "grid = read_rows grid_size s"
    using load_single_sector_rows by blast
  with assms(2,3) obtain i where "h = stream_cell s i"
    using read_rows_elements by blast
  then show ?thesis using stream_cell_range [of s i] by simp
qed

lemma spec_height_grid_ones:
  "spec_height_grid (replicate 17608 1) = replicate 65 (replicate 65 (257 / 128))"
proof -
  have "map (\<lambda>x. of_nat (unat (replicate 17608 (1::byte) ! (708 + 4 * (65 * y + x)))
                 + 256 * unat (replicate 17608 (1::byte) ! (708 + 4 * (65 * y + x) + 1))) / 128) [0..<65]
        = map (\<lambda>x. (257 / 128 :: rat)) [0..<65]" if "y \<in> set [0..<65]" for y
  proof (rule map_cong [OF refl])
    fix x assume "x \<in> set [0..<65]"
    with that have "708 + 4 * (65 * y + x) + 1 < 17608" by simp
    then show "of_nat (unat (replicate 17608 (1::byte) ! (708 + 4 * (65 * y + x)))
                 + 256 * unat (replicate 17608 (1::byte) ! (708 + 4 * (65 * y + x) + 1))) / 128
               = (257 / 128 :: rat)"
      by simp
  qed
  then have "spec_height_grid (replicate 17608 1) =
        map (\<lambda>y. map (\<lambda>x. (257 / 128 :: rat)) [0..<65]) [0..<65]"
    unfolding spec_height_grid_def by (rule map_cong [OF refl])
  then show ?thesis by (simp add: map_replicate_const)
qed

lemma load_ones:
  "load_single_sector (Some (replicate 17608 1)) = Some (replicate 65 (replicate 65 (257 / 128)))"
  using load_single_sector_full [of "replicate 17608 1"] by (simp add: spec_height_grid_ones)

text \<open>
  Claim C1. A file of at least \<open>708 + 16900\<close> bytes decodes to the 65 by 65 grid of
  the specification: header skipped, one little-endian 16-bit integer per cell in
  row-major order, divided by 128, the next two bytes skipped.
\<close>

theorem load_single_sector_decodes:
  assumes "708 + 16900 \<le> length content"
  shows "load_single_sector (Some content) = Some (spec_height_grid content)"
  using assms by (intro load_single_sector_full) simp

theorem load_single_sector_decodes_witness:
  "708 + 16900 \<le> length (replicate 17608 (1::byte)) \<and>
   load_single_sector (Some (replicate 17608 1)) = Some (replicate 65 (replicate 65 (257 / 128)))"
  using load_single_sector_decodes [of "replicate 17608 1"]
  by (simp add: spec_height_grid_ones)

theorem decoded_heights_in_range_witness:
  "load_single_sector (Some (replicate 17608 1)) = Some (replicate 65 (replicate 65 (257 / 128))) \<and>
   (0::rat) \<le> 257 / 128 \<and> (257 / 128 :: rat) \<le> 65535 / 128 \<and>
   (\<exists>k::nat. k \<le> 65535 \<and> (257 / 128 :: rat) = of_nat k / 128)"
  using decoded_heights_in_range [OF load_ones, of "replicate 65 (257 / 128)" "257 / 128"] load_ones
  by simp

section \<open>Loading: a file that fails\<close>

lemma load_file_failed:
  "load_single_sector file = None \<Longrightarrow> load_file py_int load_sector_texture (name, file) self = self"
  by (simp add: load_file_def split: option.splits)

lemma load_sectors_skip:
  assumes "load_single_sector file = None"
  shows "load_sectors py_int load_sector_texture (before @ (name, file) # after) self =
         load_sectors py_int load_sector_texture (before @ after) self"
  by (simp add: load_sectors_def load_file_failed [OF assms])

lemma place_cell_missing:
  assumes "map_of (sectors_data self) (heightmap_sector_index self display_row col) = None"
  shows "place_cell self (display_row, col) d =
           Inr (d\<lparr>missing := missing d @ [heightmap_sector_index self display_row col]\<rparr>)"
proof (cases "apply_pattern_to_heightmap self")
  case True
  with assms show ?thesis by (simp add: place_cell_def heightmap_sector_index_def Let_def)
next
  case False
  with assms show ?thesis by (simp add: place_cell_def heightmap_sector_index_def Let_def)
qed

text \<open>
  Claim C6 as stated fails: a file of 17606 bytes is shorter than \<open>708 + 4 * 65 * 65\<close>,
  yet it decodes, because the two bytes skipped after the last cell are never needed.
\<close>

theorem truncated_sector_counterexample:
  "length (replicate 17606 (0::byte)) < 708 + 4 * 65 * 65 \<and>
   load_single_sector (Some (replicate 17606 0)) \<noteq> None"
  by (simp add: load_single_sector_full)

section \<open>The water parser\<close>

lemma parse_water_short:
  "length data < 180 \<Longrightarrow> parse_water_from_sector (Some data) n = WaterData n"
  by (simp add: parse_water_from_sector_def Let_def)

lemma parse_water_unreadable: "parse_water_from_sector None n = WaterData n"
  by (simp add: parse_water_from_sector_def Let_def)

lemma parse_water_has_water:
  "180 \<le> length data \<Longrightarrow>
   has_water (parse_water_from_sector (Some data) n) =
     float_ne (unpack_f (take 4 (drop 176 data))) float_zero"
  by (simp add: parse_water_from_sector_def Let_def WaterData_def split: option.splits)

lemma take4_drop176:
  assumes "180 \<le> length data"
  shows "take 4 (drop 176 data) = [data ! 176, data ! 177, data ! 178, data ! 179]"
proof -
  have "take 2 (drop 176 data) = [data ! 176, data ! Suc 176]"
    by (rule take2_nth) (use assms in simp)
  moreover have "take 2 (drop 178 data) = [data ! 178, data ! Suc 178]"
    by (rule take2_nth) (use assms in simp)
  moreover have "take 4 (drop 176 data) = take 2 (drop 176 data) @ take 2 (drop 178 data)"
    using take_add [of 2 2 "drop 176 data"] by simp
  ultimately show ?thesis by simp
qed

text \<open>
  Claim C2. For a file of at least \<open>0xB0 + 4\<close> bytes, \<open>has_water\<close> is set exactly when
  the little-endian single-precision float in bytes 176 to 179 differs from zero in
  Python's sense; for a shorter file the record has no water and height \<open>0.0\<close>. The
  parser is a total function: it always returns a record.
\<close>

theorem water_flag_iff_nonzero:
  "(180 \<le> length data \<longrightarrow>
      has_water (parse_water_from_sector (Some data) n) =
        float_ne (unpack_f [data ! 176, data ! 177, data ! 178, data ! 179]) float_zero) \<and>
   (length data < 176 + 4 \<longrightarrow>
      has_water (parse_water_from_sector (Some data) n) = False \<and>
      water_height (parse_water_from_sector (Some data) n) = float_zero)"
  by (simp add: parse_water_has_water take4_drop176 parse_water_short WaterData_def)

lemma unpack_one: "unpack_f [0, 0, 0x80, 0x3F] = Finite False 1"
  by (simp add: unpack_f_def Let_def)

lemma unpack_zero: "unpack_f [0, 0, 0, 0] = Finite False 0"
  by (simp add: unpack_f_def Let_def)

theorem water_flag_iff_nonzero_witness:
  "180 \<le> length (replicate 176 (0::byte) @ [0, 0, 0x80, 0x3F]) \<and>
   has_water (parse_water_from_sector (Some (replicate 176 0 @ [0, 0, 0x80, 0x3F])) 7) = True \<and>
   length (replicate 179 (1::byte)) < 176 + 4 \<and>
   has_water (parse_water_from_sector (Some (replicate 179 1)) 7) = False \<and>
   water_height (parse_water_from_sector (Some (replicate 179 1)) 7) = float_zero"
proof -
  have n: "(replicate 176 (0::byte) @ [0, 0, 0x80, 0x3F]) ! 176 = 0"
       "(replicate 176 (0::byte) @ [0, 0, 0x80, 0x3F]) ! 177 = 0"
       "(replicate 176 (0::byte) @ [0, 0, 0x80, 0x3F]) ! 178 = 0x80"
       "(replicate 176 (0::byte) @ [0, 0, 0x80, 0x3F]) ! 179 = 0x3F"
    by (simp_all add: nth_append)
  show ?thesis
    using water_flag_iff_nonzero [of "replicate 176 0 @ [0, 0, 0x80, 0x3F]" 7]
      water_flag_iff_nonzero [of "replicate 179 1" 7]
    by (simp add: n unpack_one float_zero_def)
qed

lemma parse_water_material:
  "material_path (parse_water_from_sector file n) \<noteq> None \<Longrightarrow>
   has_water (parse_water_from_sector file n)"
  by (auto simp: parse_water_from_sector_def Let_def WaterData_def split: option.splits if_splits)

text \<open>
  Claim C9. A record without water has no material path, whatever the file contains.
\<close>

theorem material_path_needs_water:
  "\<not> has_water (parse_water_from_sector file n) \<Longrightarrow>
   material_path (parse_water_from_sector file n) = None"
  using parse_water_material by blast

lemma first_pattern_length: "length (water_patterns ! 0) = 33"
  by (simp add: water_patterns_def ascii_def)

lemma find_bytes_prefix: "find_bytes pat (pat @ rest) = Some 0"
proof (cases "pat @ rest")
  case Nil
  then show ?thesis by simp
next
  case (Cons d ds)
  have "take (length pat) (pat @ rest) = pat" by simp
  then show ?thesis unfolding Cons by simp
qed

lemma example_has_pattern:
  "find_first_pattern water_patterns water_material_example = Some 0"
proof -
  have "water_patterns = water_patterns ! 0 # tl water_patterns"
    by (simp add: water_patterns_def)
  then have "find_first_pattern water_patterns water_material_example =
      find_first_pattern (water_patterns ! 0 # tl water_patterns) water_material_example"
    by simp
  also have "\<dots> = Some 0"
    unfolding water_material_example_def by (simp add: find_bytes_prefix)
  finally show ?thesis .
qed

lemma replicate4: "replicate 4 x = [x, x, x, x]"
  by (simp add: numeral_eq_Suc)

lemma example_no_water:
  "has_water (parse_water_from_sector (Some water_material_example) 7) = False"
proof -
  have "180 \<le> length water_material_example"
    by (simp add: water_material_example_def)
  moreover have "take 4 (drop 176 water_material_example) = [0, 0, 0, 0]"
    by (simp add: water_material_example_def first_pattern_length replicate4)
  ultimately show ?thesis
    by (simp add: parse_water_has_water unpack_zero float_zero_def)
qed

theorem material_path_needs_water_witness:
  "\<not> has_water (parse_water_from_sector (Some water_material_example) 7) \<and>
   find_first_pattern water_patterns water_material_example = Some 0 \<and>
   material_path (parse_water_from_sector (Some water_material_example) 7) = None"
  using material_path_needs_water [of "Some water_material_example" 7]
    example_no_water example_has_pattern
  by simp

section \<open>Sector ordering\<close>

lemma mixed_radix_range:
  fixes a b m n :: int
  assumes "0 \<le> a" "a < m" "0 \<le> b" "b < n"
  shows "0 \<le> a * n + b \<and> a * n + b < m * n"
proof -
  have n: "0 < n" using assms by simp
  have "a * n + b < a * n + n" using assms by simp
  also have "\<dots> = (a + 1) * n" by (simp add: algebra_simps)
  also have "\<dots> \<le> m * n" using assms n by (intro mult_right_mono) simp_all
  finally have "a * n + b < m * n" .
  moreover have "0 \<le> a * n" using assms n by simp
  ultimately show ?thesis using assms by simp
qed

lemma mixed_radix_unique:
  fixes a b a' b' n :: int
  assumes "0 \<le> b" "b < n" "0 \<le> b'" "b' < n" "a * n + b = a' * n + b'"
  shows "a = a' \<and> b = b'"
proof -
  have d: "(x * n + y) div n = x" if "0 \<le> y" "y < n" for x y
    using that by (simp add: div_pos_pos_trivial)
  have "(a * n + b) div n = (a' * n + b') div n" using assms(5) by simp
  then have "a = a'" using assms(1-4) by (simp only: d)
  with assms(5) show ?thesis by simp
qed

lemma bij_betw_by_card:
  assumes "finite B" "inj_on f A" "f ` A \<subseteq> B" "card A = card B"
  shows "bij_betw f A B"
proof -
  have "card (f ` A) = card B" using assms by (simp add: card_image)
  with assms have "f ` A = B" by (intro card_subset_eq) simp_all
  with assms show ?thesis by (simp add: bij_betw_def)
qed

lemma card_grid:
  fixes sx sy :: int
  assumes "0 \<le> sx" "0 \<le> sy"
  shows "card ({0..<sy} \<times> {0..<sx}) = card {0..<sx * sy}"
  using assms by (simp add: card_cartesian_product nat_mult_distrib mult.commute)

lemma resolve_bij:
  fixes sx sy :: int
  assumes nonneg: "0 \<le> sx" "0 \<le> sy"
    and range: "\<And>r c. 0 \<le> r \<Longrightarrow> r < sy \<Longrightarrow> 0 \<le> c \<Longrightarrow> c < sx \<Longrightarrow>
                  0 \<le> f (r, c) \<and> f (r, c) < sx * sy"
    and inj: "\<And>r c r' c'. 0 \<le> r \<Longrightarrow> r < sy \<Longrightarrow> 0 \<le> c \<Longrightarrow> c < sx \<Longrightarrow>
                  0 \<le> r' \<Longrightarrow> r' < sy \<Longrightarrow> 0 \<le> c' \<Longrightarrow> c' < sx \<Longrightarrow>
                  f (r, c) = f (r', c') \<Longrightarrow> r = r' \<and> c = c'"
  shows "bij_betw f ({0..<sy} \<times> {0..<sx}) {0..<sx * sy}"
proof (rule bij_betw_by_card)
  show "finite {0..<sx * sy}" by simp
  show "inj_on f ({0..<sy} \<times> {0..<sx})"
    by (rule inj_onI) (use inj in force)
  show "f ` ({0..<sy} \<times> {0..<sx}) \<subseteq> {0..<sx * sy}"
    using range by force
  show "card ({0..<sy} \<times> {0..<sx}) = card {0..<sx * sy}"
    by (rule card_grid [OF nonneg])
qed

text \<open>Row-major and column-major numbering, from either end.\<close>

lemma sequential_bij:
  fixes sx sy :: int
  assumes "0 \<le> sx" "0 \<le> sy"
    and rows: "\<And>r. 0 \<le> r \<Longrightarrow> r < sy \<Longrightarrow> 0 \<le> g r \<and> g r < sy"
    and cols: "\<And>c. 0 \<le> c \<Longrightarrow> c < sx \<Longrightarrow> 0 \<le> h c \<and> h c < sx"
    and ginj: "\<And>r r'. g r = g r' \<Longrightarrow> r = r'"
    and hinj: "\<And>c c'. h c = h c' \<Longrightarrow> c = c'"
  shows "bij_betw (\<lambda>cell. g (fst cell) * sx + h (snd cell)) ({0..<sy} \<times> {0..<sx}) {0..<sx * sy}"
proof (rule resolve_bij [OF assms(1,2)])
  fix r c :: int
  assume "0 \<le> r" "r < sy" "0 \<le> c" "c < sx"
  then have "0 \<le> g r * sx + h c \<and> g r * sx + h c < sy * sx"
    using rows [of r] cols [of c] by (intro mixed_radix_range) simp_all
  then show "0 \<le> g (fst (r, c)) * sx + h (snd (r, c)) \<and>
             g (fst (r, c)) * sx + h (snd (r, c)) < sx * sy"
    by (simp add: mult.commute)
next
  fix r c r' c' :: int
  assume a: "0 \<le> r" "r < sy" "0 \<le> c" "c < sx" "0 \<le> r'" "r' < sy" "0 \<le> c'" "c' < sx"
    and e: "g (fst (r, c)) * sx + h (snd (r, c)) = g (fst (r', c')) * sx + h (snd (r', c'))"
  have "g r = g r' \<and> h c = h c'"
    using a e cols [of c] cols [of c'] by (intro mixed_radix_unique [of _ sx]) simp_all
  then show "r = r' \<and> c = c'" using ginj hinj by blast
qed

lemma by_column_bij:
  fixes sx sy :: int
  assumes "0 \<le> sx" "0 \<le> sy"
    and rows: "\<And>r. 0 \<le> r \<Longrightarrow> r < sy \<Longrightarrow> 0 \<le> g r \<and> g r < sy"
    and ginj: "\<And>r r'. g r = g r' \<Longrightarrow> r = r'"
  shows "bij_betw (\<lambda>cell. snd cell * sy + g (fst cell)) ({0..<sy} \<times> {0..<sx}) {0..<sx * sy}"
proof (rule resolve_bij [OF assms(1,2)])
  fix r c :: int
  assume "0 \<le> r" "r < sy" "0 \<le> c" "c < sx"
  then have "0 \<le> c * sy + g r \<and> c * sy + g r < sx * sy"
    using rows [of r] by (intro mixed_radix_range) simp_all
  then show "0 \<le> snd (r, c) * sy + g (fst (r, c)) \<and> snd (r, c) * sy + g (fst (r, c)) < sx * sy"
    by simp
next
  fix r c r' c' :: int
  assume a: "0 \<le> r" "r < sy" "0 \<le> c" "c < sx" "0 \<le> r'" "r' < sy" "0 \<le> c'" "c' < sx"
    and e: "snd (r, c) * sy + g (fst (r, c)) = snd (r', c') * sy + g (fst (r', c'))"
  have "c = c' \<and> g r = g r'"
    using a e rows [of r] rows [of r'] by (intro mixed_radix_unique [of _ sy]) simp_all
  then show "r = r' \<and> c = c'" using ginj by blast
qed

text \<open>Numbering by 2 by 2 blocks: \<open>major\<close> and \<open>minor\<close> pick the block coordinates.\<close>

lemma half_bounds:
  fixes c n :: int
  assumes "0 \<le> c" "c < n" "even n"
  shows "0 \<le> c div 2 \<and> c div 2 < n div 2"
proof -
  from assms(3) obtain k where k: "n = 2 * k" by (elim evenE)
  have "c div 2 < k" using assms(2) unfolding k by simp
  then show ?thesis using assms(1) k by simp
qed

lemma div_mod_2_eq:
  fixes r r' :: int
  assumes "r div 2 = r' div 2" "r mod 2 = r' mod 2"
  shows "r = r'"
proof -
  have "r = 2 * (r div 2) + r mod 2" by simp
  also have "\<dots> = 2 * (r' div 2) + r' mod 2" using assms by simp
  also have "\<dots> = r'" by simp
  finally show ?thesis .
qed

lemma block_cell_unique:
  fixes a b a' b' h r c r' c' :: int and off :: "int \<Rightarrow> int \<Rightarrow> int"
  assumes off: "\<And>i j. 0 \<le> off i j \<and> off i j < (4::int)"
    and offinj: "\<And>i j i' j'. i \<in> {0, 1} \<Longrightarrow> j \<in> {0, 1} \<Longrightarrow> i' \<in> {0, 1} \<Longrightarrow> j' \<in> {0, 1} \<Longrightarrow>
                   off i j = off i' j' \<Longrightarrow> i = i' \<and> j = j'"
    and b: "0 \<le> b" "b < h" "0 \<le> b'" "b' < h"
    and e: "(a * h + b) * 4 + off (r mod 2) (c mod 2) = (a' * h + b') * 4 + off (r' mod 2) (c' mod 2)"
  shows "a = a' \<and> b = b' \<and> r mod 2 = r' mod 2 \<and> c mod 2 = c' mod 2"
proof -
  have m: "x mod 2 \<in> {0, 1}" for x :: int by auto
  have "a * h + b = a' * h + b' \<and> off (r mod 2) (c mod 2) = off (r' mod 2) (c' mod 2)"
    using off e by (intro mixed_radix_unique [of _ 4]) simp_all
  moreover then have "a = a' \<and> b = b'"
    using b by (intro mixed_radix_unique [of _ h]) simp_all
  moreover have "r mod 2 = r' mod 2 \<and> c mod 2 = c' mod 2"
    using calculation(1) by (intro offinj m) simp
  ultimately show ?thesis by simp
qed

lemma block_cell_range:
  fixes a b ha hb :: int
  assumes "0 \<le> a" "a < ha" "0 \<le> b" "b < hb" "0 \<le> off" "off < (4::int)"
  shows "0 \<le> (a * hb + b) * 4 + off \<and> (a * hb + b) * 4 + off < (2 * ha) * (2 * hb)"
proof -
  have "0 \<le> a * hb + b \<and> a * hb + b < ha * hb"
    using assms by (intro mixed_radix_range) simp_all
  then have "0 \<le> (a * hb + b) * 4 + off \<and> (a * hb + b) * 4 + off < (ha * hb) * 4"
    using assms by (intro mixed_radix_range) simp_all
  then show ?thesis by (simp add: algebra_simps)
qed

lemma vertical_blocks_bij:
  fixes sx sy :: int and off :: "int \<Rightarrow> int \<Rightarrow> int"
  assumes nonneg: "0 \<le> sx" "0 \<le> sy" and ev: "even sx" "even sy"
    and off: "\<And>i j. 0 \<le> off i j \<and> off i j < (4::int)"
    and offinj: "\<And>i j i' j'. i \<in> {0, 1} \<Longrightarrow> j \<in> {0, 1} \<Longrightarrow> i' \<in> {0, 1} \<Longrightarrow> j' \<in> {0, 1} \<Longrightarrow>
                   off i j = off i' j' \<Longrightarrow> i = i' \<and> j = j'"
  shows "bij_betw (\<lambda>cell. (snd cell div 2 * (sy div 2) + fst cell div 2) * 4
                           + off (fst cell mod 2) (snd cell mod 2))
           ({0..<sy} \<times> {0..<sx}) {0..<sx * sy}"
proof (rule resolve_bij [OF nonneg])
  fix r c :: int
  assume a: "0 \<le> r" "r < sy" "0 \<le> c" "c < sx"
  have "0 \<le> (c div 2 * (sy div 2) + r div 2) * 4 + off (r mod 2) (c mod 2) \<and>
        (c div 2 * (sy div 2) + r div 2) * 4 + off (r mod 2) (c mod 2)
          < (2 * (sx div 2)) * (2 * (sy div 2))"
    using half_bounds [OF a(3,4) ev(1)] half_bounds [OF a(1,2) ev(2)] off
    by (intro block_cell_range) simp_all
  then show "0 \<le> (snd (r, c) div 2 * (sy div 2) + fst (r, c) div 2) * 4
                  + off (fst (r, c) mod 2) (snd (r, c) mod 2) \<and>
             (snd (r, c) div 2 * (sy div 2) + fst (r, c) div 2) * 4
                  + off (fst (r, c) mod 2) (snd (r, c) mod 2) < sx * sy"
    using ev by simp
next
  fix r c r' c' :: int
  assume a: "0 \<le> r" "r < sy" "0 \<le> c" "c < sx" "0 \<le> r'" "r' < sy" "0 \<le> c'" "c' < sx"
    and e: "(snd (r, c) div 2 * (sy div 2) + fst (r, c) div 2) * 4
               + off (fst (r, c) mod 2) (snd (r, c) mod 2) =
            (snd (r', c') div 2 * (sy div 2) + fst (r', c') div 2) * 4
               + off (fst (r', c') mod 2) (snd (r', c') mod 2)"
  have "c div 2 = c' div 2 \<and> r div 2 = r' div 2 \<and> r mod 2 = r' mod 2 \<and> c mod 2 = c' mod 2"
    using half_bounds [OF a(1,2) ev(2)] half_bounds [OF a(5,6) ev(2)] e
    by (intro block_cell_unique [where off = off and h = "sy div 2"] off offinj) simp_all
  then show "r = r' \<and> c = c'" by (blast intro: div_mod_2_eq)
qed

lemma horizontal_blocks_bij:
  fixes sx sy :: int and off :: "int \<Rightarrow> int \<Rightarrow> int"
  assumes nonneg: "0 \<le> sx" "0 \<le> sy" and ev: "even sx" "even sy"
    and off: "\<And>i j. 0 \<le> off i j \<and> off i j < (4::int)"
    and offinj: "\<And>i j i' j'. i \<in> {0, 1} \<Longrightarrow> j \<in> {0, 1} \<Longrightarrow> i' \<in> {0, 1} \<Longrightarrow> j' \<in> {0, 1} \<Longrightarrow>
                   off i j = off i' j' \<Longrightarrow> i = i' \<and> j = j'"
  shows "bij_betw (\<lambda>cell. (fst cell div 2 * (sx div 2) + snd cell div 2) * 4
                           + off (fst cell mod 2) (snd cell mod 2))
           ({0..<sy} \<times> {0..<sx}) {0..<sx * sy}"
proof (rule resolve_bij [OF nonneg])
  fix r c :: int
  assume a: "0 \<le> r" "r < sy" "0 \<le> c" "c < sx"
  have "0 \<le> (r div 2 * (sx div 2) + c div 2) * 4 + off (r mod 2) (c mod 2) \<and>
        (r div 2 * (sx div 2) + c div 2) * 4 + off (r mod 2) (c mod 2)
          < (2 * (sy div 2)) * (2 * (sx div 2))"
    using half_bounds [OF a(3,4) ev(1)] half_bounds [OF a(1,2) ev(2)] off
    by (intro block_cell_range) simp_all
  then show "0 \<le> (fst (r, c) div 2 * (sx div 2) + snd (r, c) div 2) * 4
                  + off (fst (r, c) mod 2) (snd (r, c) mod 2) \<and>
             (fst (r, c) div 2 * (sx div 2) + snd (r, c) div 2) * 4
                  + off (fst (r, c) mod 2) (snd (r, c) mod 2) < sx * sy"
    using ev by (simp add: mult.commute)
next
  fix r c r' c' :: int
  assume a: "0 \<le> r" "r < sy" "0 \<le> c" "c < sx" "0 \<le> r'" "r' < sy" "0 \<le> c'" "c' < sx"
    and e: "(fst (r, c) div 2 * (sx div 2) + snd (r, c) div 2) * 4
               + off (fst (r, c) mod 2) (snd (r, c) mod 2) =
            (fst (r', c') div 2 * (sx div 2) + snd (r', c') div 2) * 4
               + off (fst (r', c') mod 2) (snd (r', c') mod 2)"
  have "r div 2 = r' div 2 \<and> c div 2 = c' div 2 \<and> r mod 2 = r' mod 2 \<and> c mod 2 = c' mod 2"
    using half_bounds [OF a(3,4) ev(1)] half_bounds [OF a(7,8) ev(1)] e
    by (intro block_cell_unique [where off = off and h = "sx div 2"] off offinj) simp_all
  then show "r = r' \<and> c = c'" by (blast intro: div_mod_2_eq)
qed

lemma swap12_offsets:
  "0 \<le> (if i = 0 \<and> j = 0 then 0 else if i = 0 \<and> j = 1 then 2 else if i = 1 \<and> j = 0 then 1 else 3 :: int) \<and>
   (if i = 0 \<and> j = 0 then 0 else if i = 0 \<and> j = 1 then 2 else if i = 1 \<and> j = 0 then 1 else 3 :: int) < 4"
  by simp

lemma noswap_offsets:
  "0 \<le> (if i = 0 \<and> j = 0 then 0 else if i = 0 \<and> j = 1 then 1 else if i = 1 \<and> j = 0 then 2 else 3 :: int) \<and>
   (if i = 0 \<and> j = 0 then 0 else if i = 0 \<and> j = 1 then 1 else if i = 1 \<and> j = 0 then 2 else 3 :: int) < 4"
  by simp

lemma swap03_offsets:
  "0 \<le> (if i = 0 \<and> j = 0 then 3 else if i = 0 \<and> j = 1 then 1 else if i = 1 \<and> j = 0 then 2 else 0 :: int) \<and>
   (if i = 0 \<and> j = 0 then 3 else if i = 0 \<and> j = 1 then 1 else if i = 1 \<and> j = 0 then 2 else 0 :: int) < 4"
  by simp

text \<open>
  Claim C3 as stated fails: in a grid of two columns and one row the vertical Avatar
  layout sends the cell of row 0 and column 1 to sector 2, outside \<open>{0..<2}\<close>.
\<close>

theorem sector_index_bijection_counterexample:
  "(0, 1) \<in> {0..<1::int} \<times> {0..<2::int} \<and>
   get_sector_index_from_position AvatarVertical 0 1 2 1 = 2 \<and>
   (2::int) \<notin> {0..<2 * 1}"
  by (simp add: get_sector_index_from_position_def)

text \<open>
  Claim C3, amended. For every grid of at least one row and one column, and even numbers
  of rows and columns when the pattern numbers by 2 by 2 blocks, the resolver is a
  bijection from the cells of the grid onto the sector numbers below
  \<open>sectors_x * sectors_y\<close>.
\<close>

theorem sector_index_bijection:
  fixes sectors_x sectors_y :: int
  assumes "1 \<le> sectors_x" and "1 \<le> sectors_y"
    and "block_pattern p \<Longrightarrow> even sectors_x \<and> even sectors_y"
  shows "bij_betw (\<lambda>(display_row, col).
                     get_sector_index_from_position p display_row col sectors_x sectors_y)
           ({0..<sectors_y} \<times> {0..<sectors_x}) {0..<sectors_x * sectors_y}"
proof -
  have nonneg: "0 \<le> sectors_x" "0 \<le> sectors_y" using assms by simp_all
  let ?f = "\<lambda>(display_row, col).
              get_sector_index_from_position p display_row col sectors_x sectors_y"
  show ?thesis
  proof (cases p)
    case AvatarVertical
    then have ev: "even sectors_x" "even sectors_y" using assms(3) by (simp_all add: block_pattern_def)
    have "?f = (\<lambda>cell. (snd cell div 2 * (sectors_y div 2) + fst cell div 2) * 4
                 + (if fst cell mod 2 = 0 \<and> snd cell mod 2 = 0 then 0
                    else if fst cell mod 2 = 0 \<and> snd cell mod 2 = 1 then 2
                    else if fst cell mod 2 = 1 \<and> snd cell mod 2 = 0 then 1 else 3))"
      by (simp add: fun_eq_iff get_sector_index_from_position_def AvatarVertical Let_def)
    moreover have "bij_betw \<dots> ({0..<sectors_y} \<times> {0..<sectors_x}) {0..<sectors_x * sectors_y}"
      by (rule vertical_blocks_bij [OF nonneg ev swap12_offsets]) (auto split: if_splits)
    ultimately show ?thesis by simp
  next
    case AvatarHorizontal
    then have ev: "even sectors_x" "even sectors_y" using assms(3) by (simp_all add: block_pattern_def)
    have "?f = (\<lambda>cell. (fst cell div 2 * (sectors_x div 2) + snd cell div 2) * 4
                 + (if fst cell mod 2 = 0 \<and> snd cell mod 2 = 0 then 0
                    else if fst cell mod 2 = 0 \<and> snd cell mod 2 = 1 then 2
                    else if fst cell mod 2 = 1 \<and> snd cell mod 2 = 0 then 1 else 3))"
      by (simp add: fun_eq_iff get_sector_index_from_position_def AvatarHorizontal Let_def)
    moreover have "bij_betw \<dots> ({0..<sectors_y} \<times> {0..<sectors_x}) {0..<sectors_x * sectors_y}"
      by (rule horizontal_blocks_bij [OF nonneg ev swap12_offsets]) (auto split: if_splits)
    ultimately show ?thesis by simp
  next
    case AvatarNoSwap
    then have ev: "even sectors_x" "even sectors_y" using assms(3) by (simp_all add: block_pattern_def)
    have "?f = (\<lambda>cell. (snd cell div 2 * (sectors_y div 2) + fst cell div 2) * 4
                 + (if fst cell mod 2 = 0 \<and> snd cell mod 2 = 0 then 0
                    else if fst cell mod 2 = 0 \<and> snd cell mod 2 = 1 then 1
                    else if fst cell mod 2 = 1 \<and> snd cell mod 2 = 0 then 2 else 3))"
      by (simp add: fun_eq_iff get_sector_index_from_position_def AvatarNoSwap Let_def)
    moreover have "bij_betw \<dots> ({0..<sectors_y} \<times> {0..<sectors_x}) {0..<sectors_x * sectors_y}"
      by (rule vertical_blocks_bij [OF nonneg ev noswap_offsets]) (auto split: if_splits)
    ultimately show ?thesis by simp
  next
    case AvatarSwap03
    then have ev: "even sectors_x" "even sectors_y" using assms(3) by (simp_all add: block_pattern_def)
    have "?f = (\<lambda>cell. (snd cell div 2 * (sectors_y div 2) + fst cell div 2) * 4
                 + (if fst cell mod 2 = 0 \<and> snd cell mod 2 = 0 then 3
                    else if fst cell mod 2 = 0 \<and> snd cell mod 2 = 1 then 1
                    else if fst cell mod 2 = 1 \<and> snd cell mod 2 = 0 then 2 else 0))"
      by (simp add: fun_eq_iff get_sector_index_from_position_def AvatarSwap03 Let_def)
    moreover have "bij_betw \<dots> ({0..<sectors_y} \<times> {0..<sectors_x}) {0..<sectors_x * sectors_y}"
      by (rule vertical_blocks_bij [OF nonneg ev swap03_offsets]) (auto split: if_splits)
    ultimately show ?thesis by simp
  next
    case BottomLeftSequential
    have "?f = (\<lambda>cell. (sectors_y - 1 - fst cell) * sectors_x + snd cell)"
      by (simp add: fun_eq_iff get_sector_index_from_position_def BottomLeftSequential)
    moreover have "bij_betw \<dots> ({0..<sectors_y} \<times> {0..<sectors_x}) {0..<sectors_x * sectors_y}"
      by (rule sequential_bij [OF nonneg, of "\<lambda>r. sectors_y - 1 - r" "\<lambda>c. c"]) simp_all
    ultimately show ?thesis by simp
  next
    case TopLeftSequential
    have "?f = (\<lambda>cell. fst cell * sectors_x + snd cell)"
      by (simp add: fun_eq_iff get_sector_index_from_position_def TopLeftSequential)
    moreover have "bij_betw \<dots> ({0..<sectors_y} \<times> {0..<sectors_x}) {0..<sectors_x * sectors_y}"
      by (rule sequential_bij [OF nonneg, of "\<lambda>r. r" "\<lambda>c. c"]) simp_all
    ultimately show ?thesis by simp
  next
    case BottomRightSequential
    have "?f = (\<lambda>cell. (sectors_y - 1 - fst cell) * sectors_x + (sectors_x - 1 - snd cell))"
      by (simp add: fun_eq_iff get_sector_index_from_position_def BottomRightSequential)
    moreover have "bij_betw \<dots> ({0..<sectors_y} \<times> {0..<sectors_x}) {0..<sectors_x * sectors_y}"
      by (rule sequential_bij [OF nonneg, of "\<lambda>r. sectors_y - 1 - r" "\<lambda>c. sectors_x - 1 - c"])
        simp_all
    ultimately show ?thesis by simp
  next
    case TopRightSequential
    have "?f = (\<lambda>cell. fst cell * sectors_x + (sectors_x - 1 - snd cell))"
      by (simp add: fun_eq_iff get_sector_index_from_position_def TopRightSequential)
    moreover have "bij_betw \<dots> ({0..<sectors_y} \<times> {0..<sectors_x}) {0..<sectors_x * sectors_y}"
      by (rule sequential_bij [OF nonneg, of "\<lambda>r. r" "\<lambda>c. sectors_x - 1 - c"]) simp_all
    ultimately show ?thesis by simp
  next
    case BottomLeftByColumn
    have "?f = (\<lambda>cell. snd cell * sectors_y + (sectors_y - 1 - fst cell))"
      by (simp add: fun_eq_iff get_sector_index_from_position_def BottomLeftByColumn)
    moreover have "bij_betw \<dots> ({0..<sectors_y} \<times> {0..<sectors_x}) {0..<sectors_x * sectors_y}"
      by (rule by_column_bij [OF nonneg, of "\<lambda>r. sectors_y - 1 - r"]) simp_all
    ultimately show ?thesis by simp
  next
    case TopLeftByColumn
    have "?f = (\<lambda>cell. snd cell * sectors_y + fst cell)"
      by (simp add: fun_eq_iff get_sector_index_from_position_def TopLeftByColumn)
    moreover have "bij_betw \<dots> ({0..<sectors_y} \<times> {0..<sectors_x}) {0..<sectors_x * sectors_y}"
      by (rule by_column_bij [OF nonneg, of "\<lambda>r. r"]) simp_all
    ultimately show ?thesis by simp
  next
    case OtherPattern
    have "?f = (\<lambda>cell. (sectors_y - 1 - fst cell) * sectors_x + snd cell)"
      by (simp add: fun_eq_iff get_sector_index_from_position_def OtherPattern)
    moreover have "bij_betw \<dots> ({0..<sectors_y} \<times> {0..<sectors_x}) {0..<sectors_x * sectors_y}"
      by (rule sequential_bij [OF nonneg, of "\<lambda>r. sectors_y - 1 - r" "\<lambda>c. c"]) simp_all
    ultimately show ?thesis by simp
  qed
qed

theorem sector_index_bijection_witness:
  "(1::int) \<le> 2 \<and> block_pattern AvatarVertical \<and> even (2::int) \<and>
   bij_betw (\<lambda>(display_row, col). get_sector_index_from_position AvatarVertical display_row col 2 2)
     ({0..<2} \<times> {0..<2}) {0..<2 * 2} \<and>
   (1::int) \<le> 3 \<and> \<not> block_pattern TopRightSequential \<and>
   bij_betw (\<lambda>(display_row, col). get_sector_index_from_position TopRightSequential display_row col 3 1)
     ({0..<1} \<times> {0..<3}) {0..<3 * 1}"
  using sector_index_bijection [of 2 2 AvatarVertical]
    sector_index_bijection [of 3 1 TopRightSequential]
  by (simp add: block_pattern_def)

section \<open>Arrays as tables\<close>

lemma tabulate2_nth: "y < h \<Longrightarrow> x < w \<Longrightarrow> tabulate2 h w f ! y ! x = f y x"
  by (simp add: tabulate2_def)

lemma tabulate2_length: "length (tabulate2 h w f) = h"
  by (simp add: tabulate2_def)


lemma tabulate2_shape: "has_shape h w (tabulate2 h w f)"
  by (auto simp: has_shape_def tabulate2_def)

lemma tabulate2_cong:
  "(\<And>y x. y < h \<Longrightarrow> x < w \<Longrightarrow> f y x = g y x) \<Longrightarrow> tabulate2 h w f = tabulate2 h w g"
  by (simp add: tabulate2_def)

lemma shape_tabulate2:
  assumes "has_shape h w a"
  shows "a = tabulate2 h w (\<lambda>y x. a ! y ! x)"
proof (rule nth_equalityI)
  show "length a = length (tabulate2 h w (\<lambda>y x. a ! y ! x))"
    using assms by (simp add: has_shape_def tabulate2_length)
next
  fix y assume y: "y < length a"
  then have h: "y < h" and r: "length (a ! y) = w"
    using assms by (auto simp: has_shape_def)
  have "a ! y = map (\<lambda>x. a ! y ! x) [0..<w]"
    using r by (intro nth_equalityI) simp_all
  then show "a ! y = tabulate2 h w (\<lambda>y x. a ! y ! x) ! y"
    using h by (simp add: tabulate2_def)
qed

lemma ncols_tabulate2: "0 < h \<Longrightarrow> ncols (tabulate2 h w f) = w"
  by (simp add: ncols_def tabulate2_def upt_conv_Cons split: list.splits)

lemma replicate_tabulate2: "replicate h (replicate w v) = tabulate2 h w (\<lambda>y x. v)"
  by (simp add: tabulate2_def map_replicate_const)

section \<open>The weight mask\<close>

lemma np_index_ok: "0 \<le> i \<Longrightarrow> i < int n \<Longrightarrow> np_index n i = Inr (nat i)"
  by (simp add: np_index_def)

lemma np_index_from_end:
  "0 \<le> e \<Longrightarrow> e < int n \<Longrightarrow> np_index n (- (e + 1)) = Inr (n - 1 - nat e)"
  by (auto simp: np_index_def Let_def nat_diff_distrib)

lemma np_index_high: "int n \<le> i \<Longrightarrow> np_index n i = Inl IndexError"
  by (simp add: np_index_def)

lemma np_index_Inr: "np_index n i = Inr k \<Longrightarrow> k < n"
  by (auto simp: np_index_def Let_def split: if_splits)

lemma mul_col_tabulate2:
  assumes "0 < h" "np_index w i = Inr k"
  shows "mul_col (tabulate2 h w f) i wt =
           Inr (tabulate2 h w (\<lambda>i j. f i j * (if j = k then wt else 1)))"
proof -
  have k: "k < w" using assms(2) by (rule np_index_Inr)
  have "np_index (ncols (tabulate2 h w f)) i = Inr k"
    using assms by (simp add: ncols_tabulate2)
  moreover have "map (\<lambda>r. r[k := r ! k * wt]) (tabulate2 h w f) =
        tabulate2 h w (\<lambda>i j. f i j * (if j = k then wt else 1))"
  proof (rule nth_equalityI)
    show "length (map (\<lambda>r. r[k := r ! k * wt]) (tabulate2 h w f)) =
          length (tabulate2 h w (\<lambda>i j. f i j * (if j = k then wt else 1)))"
      by (simp add: tabulate2_length)
  next
    fix y assume "y < length (map (\<lambda>r. r[k := r ! k * wt]) (tabulate2 h w f))"
    then have y: "y < h" by (simp add: tabulate2_length)
    have "(tabulate2 h w f ! y)[k := tabulate2 h w f ! y ! k * wt] =
          map (\<lambda>j. f y j * (if j = k then wt else 1)) [0..<w]"
      using y k by (intro nth_equalityI) (auto simp: tabulate2_def nth_list_update)
    then show "map (\<lambda>r. r[k := r ! k * wt]) (tabulate2 h w f) ! y =
               tabulate2 h w (\<lambda>i j. f i j * (if j = k then wt else 1)) ! y"
      using y by (simp add: tabulate2_length) (simp add: tabulate2_def)
  qed
  ultimately show ?thesis by (simp add: mul_col_def bind_err_def)
qed

lemma mul_row_tabulate2:
  assumes "np_index h i = Inr k"
  shows "mul_row (tabulate2 h w f) i wt =
           Inr (tabulate2 h w (\<lambda>i j. f i j * (if i = k then wt else 1)))"
proof -
  have k: "k < h" using assms by (rule np_index_Inr)
  have "np_index (length (tabulate2 h w f)) i = Inr k"
    using assms by (simp add: tabulate2_length)
  moreover have "(tabulate2 h w f)[k := map (\<lambda>v. v * wt) (tabulate2 h w f ! k)] =
        tabulate2 h w (\<lambda>i j. f i j * (if i = k then wt else 1))"
    using k by (intro nth_equalityI) (auto simp: tabulate2_def nth_list_update)
  ultimately show ?thesis by (simp add: mul_row_def bind_err_def)
qed

lemma feather_step_tabulate2:
  assumes "0 \<le> e" "e < 65"
  shows "feather_step blend_mode overlap e (tabulate2 65 65 f) =
           Inr (tabulate2 65 65
                  (\<lambda>i j. f i j * edge_factor (blend_weight blend_mode e overlap) (nat e) i j))"
proof -
  let ?w = "blend_weight blend_mode e overlap"
  have lo: "np_index 65 e = Inr (nat e)" using assms by (simp add: np_index_ok)
  have "np_index 65 (- (e + 1)) = Inr (64 - nat e)"
    using assms np_index_from_end [of e 65] by simp
  then have hi: "np_index 65 (- e - 1) = Inr (64 - nat e)" by simp
  have "feather_step blend_mode overlap e (tabulate2 65 65 f) =
        Inr (tabulate2 65 65 (\<lambda>i j. f i j * (if j = nat e then ?w else 1)
                                         * (if j = 64 - nat e then ?w else 1)
                                         * (if i = nat e then ?w else 1)
                                         * (if i = 64 - nat e then ?w else 1)))"
    by (simp add: feather_step_def Let_def bind_err_def
        mul_col_tabulate2 [OF _ lo] mul_col_tabulate2 [OF _ hi]
        mul_row_tabulate2 [OF lo] mul_row_tabulate2 [OF hi])
  also have "tabulate2 65 65 (\<lambda>i j. f i j * (if j = nat e then ?w else 1)
                                         * (if j = 64 - nat e then ?w else 1)
                                         * (if i = nat e then ?w else 1)
                                         * (if i = 64 - nat e then ?w else 1)) =
             tabulate2 65 65 (\<lambda>i j. f i j * edge_factor ?w (nat e) i j)"
    by (rule tabulate2_cong) (simp add: edge_factor_def mult.assoc)
  finally show ?thesis .
qed

lemma feather_tabulate2:
  assumes "\<forall>e \<in> set es. 0 \<le> e \<and> e < 65"
  shows "feather blend_mode overlap es (tabulate2 65 65 f) =
           Inr (tabulate2 65 65
                  (\<lambda>i j. f i j * prod_list
                     (map (\<lambda>e. edge_factor (blend_weight blend_mode e overlap) (nat e) i j) es)))"
  using assms
proof (induction es arbitrary: f)
  case Nil
  then show ?case by simp
next
  case (Cons e es)
  then have e: "0 \<le> e" "e < 65" and es: "\<forall>e \<in> set es. 0 \<le> e \<and> e < 65" by simp_all
  show ?case
    by (simp add: feather_step_tabulate2 [OF e] bind_err_def Cons.IH [OF es] mult.assoc)
qed

lemma sector_weight_mask_table:
  assumes "overlap \<le> 65"
  shows "sector_weight_mask blend_mode overlap =
           Inr (tabulate2 65 65 (mask_value blend_mode overlap))"
proof -
  have "\<forall>e \<in> set [0..overlap - 1]. 0 \<le> e \<and> e < 65" using assms by auto
  then have "feather blend_mode overlap [0..overlap - 1] (tabulate2 65 65 (\<lambda>i j. 1)) =
        Inr (tabulate2 65 65 (\<lambda>i j. 1 * mask_value blend_mode overlap i j))"
    unfolding mask_value_def by (rule feather_tabulate2)
  then show ?thesis
    by (simp add: sector_weight_mask_def np_ones_def grid_size_def replicate_tabulate2)
qed

section \<open>Accumulating one sector\<close>

lemma add_slice_tabulate2:
  "add_slice (tabulate2 h w f) oy ey ox ex b =
     tabulate2 h w (\<lambda>y x. if oy \<le> y \<and> y < ey \<and> ox \<le> x \<and> x < ex
                            then f y x + b ! (y - oy) ! (x - ox) else f y x)"
proof -
  have row: "(if oy \<le> y \<and> y < ey
          then map (\<lambda>x. if ox \<le> x \<and> x < ex
                         then tabulate2 h w f ! y ! x + b ! (y - oy) ! (x - ox)
                         else tabulate2 h w f ! y ! x) [0..<length (tabulate2 h w f ! y)]
          else tabulate2 h w f ! y) =
        map (\<lambda>x. if oy \<le> y \<and> y < ey \<and> ox \<le> x \<and> x < ex
                   then f y x + b ! (y - oy) ! (x - ox) else f y x) [0..<w]"
    if "y < h" for y
    using that by (auto simp: tabulate2_def)
  show ?thesis
    unfolding add_slice_def tabulate2_length
    by (subst (2) tabulate2_def) (rule map_cong [OF refl], simp add: row)
qed

lemma mul_arrays_tabulate2:
  "mul_arrays h w (tabulate2 h w f) (tabulate2 h w g) = tabulate2 h w (\<lambda>i j. f i j * g i j)"
  by (simp add: mul_arrays_def tabulate2_def zip_map_map zip_same_conv_map)

lemma take_tabulate2: "map (take w) (take h (tabulate2 h w f)) = tabulate2 h w f"
  by (simp add: tabulate2_def)

lemma footprint_end:
  fixes r n ov :: int
  assumes "ov \<le> 65" "0 \<le> r" "r < n"
  shows "min (r * (65 - ov) + 65) (n * (65 - ov) + ov) = r * (65 - ov) + 65"
proof -
  have "(r + 1) * (65 - ov) \<le> n * (65 - ov)"
    using assms by (intro mult_right_mono) simp_all
  then have "r * (65 - ov) + 65 \<le> n * (65 - ov) + ov" by (simp add: algebra_simps)
  then show ?thesis by simp
qed

lemma blend_cell_table:
  assumes ov: "seam_overlap_pixels self \<le> 65"
    and cell: "0 \<le> r" "r < sy" "0 \<le> c" "c < sx"
    and shapes: "\<And>k g. map_of sectors_dict k = Some g \<Longrightarrow> has_shape 65 65 g"
  shows "blend_cell self sectors_dict sx sy (r, c) (tabulate2 h w fc, tabulate2 h w fw) =
     Inr (tabulate2 h w (\<lambda>y x. fc y x + value_contribution self sectors_dict sx sy (r, c) y x),
          tabulate2 h w (\<lambda>y x. fw y x + weight_contribution self sectors_dict sx sy (r, c) y x))"
proof (cases "map_of sectors_dict
                (get_sector_index_from_position (sector_order_pattern self) r c sx sy)")
  case None
  then show ?thesis
    by (simp add: blend_cell_def Let_def value_contribution_def weight_contribution_def)
next
  case (Some data)
  let ?ov = "seam_overlap_pixels self"
  let ?oy = "nat (r * (65 - ?ov))" and ?ox = "nat (c * (65 - ?ov))"
  let ?m = "mask_value (seam_blend_mode self) ?ov"
  have sh: "has_shape 65 65 data" using Some by (rule shapes)
  then have data: "data = tabulate2 65 65 (\<lambda>i j. data ! i ! j)" by (rule shape_tabulate2)
  have mask: "sector_weight_mask (seam_blend_mode self) ?ov = Inr (tabulate2 65 65 ?m)"
    by (rule sector_weight_mask_table [OF ov])
  have ey: "min (r * (65 - ?ov) + 65) (sy * (65 - ?ov) + ?ov) = r * (65 - ?ov) + 65"
    by (rule footprint_end [OF ov cell(1,2)])
  have ex: "min (c * (65 - ?ov) + 65) (sx * (65 - ?ov) + ?ov) = c * (65 - ?ov) + 65"
    by (rule footprint_end [OF ov cell(3,4)])
  have ny: "nat (r * (65 - ?ov) + 65) = ?oy + 65" and nx: "nat (c * (65 - ?ov) + 65) = ?ox + 65"
    using ov cell by (simp_all add: nat_add_distrib)
  have prod: "mul_arrays 65 65 data (tabulate2 65 65 ?m) =
              tabulate2 65 65 (\<lambda>i j. data ! i ! j * ?m i j)"
    by (subst data) (rule mul_arrays_tabulate2)
  have "blend_cell self sectors_dict sx sy (r, c) (tabulate2 h w fc, tabulate2 h w fw) =
        Inr (add_slice (tabulate2 h w fc) ?oy (?oy + 65) ?ox (?ox + 65)
               (tabulate2 65 65 (\<lambda>i j. data ! i ! j * ?m i j)),
             add_slice (tabulate2 h w fw) ?oy (?oy + 65) ?ox (?ox + 65) (tabulate2 65 65 ?m))"
    using sh
    by (simp add: blend_cell_def Let_def Some mask bind_err_def grid_size_def ey ex ny nx
        prod take_tabulate2)
  also have "add_slice (tabulate2 h w fc) ?oy (?oy + 65) ?ox (?ox + 65)
               (tabulate2 65 65 (\<lambda>i j. data ! i ! j * ?m i j)) =
             tabulate2 h w (\<lambda>y x. fc y x + value_contribution self sectors_dict sx sy (r, c) y x)"
    unfolding add_slice_tabulate2
    by (rule tabulate2_cong)
      (auto simp: value_contribution_def Some in_footprint_def tabulate2_nth)
  also have "add_slice (tabulate2 h w fw) ?oy (?oy + 65) ?ox (?ox + 65) (tabulate2 65 65 ?m) =
             tabulate2 h w (\<lambda>y x. fw y x + weight_contribution self sectors_dict sx sy (r, c) y x)"
    unfolding add_slice_tabulate2
    by (rule tabulate2_cong)
      (auto simp: weight_contribution_def Some in_footprint_def tabulate2_nth)
  finally show ?thesis .
qed

section \<open>The blended plane\<close>

lemma blend_cells_table:
  assumes ov: "seam_overlap_pixels self \<le> 65"
    and cells: "\<forall>cell \<in> set cells. 0 \<le> fst cell \<and> fst cell < sy \<and> 0 \<le> snd cell \<and> snd cell < sx"
    and shapes: "\<And>k g. map_of sectors_dict k = Some g \<Longrightarrow> has_shape 65 65 g"
  shows "blend_cells self sectors_dict sx sy cells (tabulate2 h w fc, tabulate2 h w fw) =
     Inr (tabulate2 h w (\<lambda>y x. fc y x +
            sum_list (map (\<lambda>cell. value_contribution self sectors_dict sx sy cell y x) cells)),
          tabulate2 h w (\<lambda>y x. fw y x +
            sum_list (map (\<lambda>cell. weight_contribution self sectors_dict sx sy cell y x) cells)))"
  using cells
proof (induction cells arbitrary: fc fw)
  case Nil
  then show ?case by simp
next
  case (Cons cell cells)
  obtain r c where rc: "cell = (r, c)" by (cases cell)
  with Cons.prems have b: "0 \<le> r" "r < sy" "0 \<le> c" "c < sx" by simp_all
  from Cons.prems have rest:
    "\<forall>cell \<in> set cells. 0 \<le> fst cell \<and> fst cell < sy \<and> 0 \<le> snd cell \<and> snd cell < sx"
    by simp
  show ?case
    unfolding rc
    by (simp add: blend_cell_table [OF ov b shapes] bind_err_def Cons.IH [OF rest] add.assoc)
qed

lemma grid_cells_bounds:
  "\<forall>cell \<in> set (grid_cells sx sy). 0 \<le> fst cell \<and> fst cell < sy \<and> 0 \<le> snd cell \<and> snd cell < sx"
  by (auto simp: grid_cells_def)

lemma normalize_tabulate2:
  "normalize (tabulate2 h w f) (tabulate2 h w g) =
     tabulate2 h w (\<lambda>y x. f y x / max (g y x) (1 / 10 ^ 10))"
  by (simp add: normalize_def tabulate2_def zip_map_map zip_same_conv_map)

lemma total_size_nonneg:
  fixes n ov :: int
  assumes "0 \<le> ov" "ov \<le> 65" "0 \<le> n"
  shows "0 \<le> n * (65 - ov) + ov"
  using assms by simp

lemma seam_blend_plane_table:
  assumes ov: "0 \<le> seam_overlap_pixels self" "seam_overlap_pixels self \<le> 65"
    and size: "0 \<le> sx" "0 \<le> sy"
    and shapes: "\<And>k g. map_of sectors_dict k = Some g \<Longrightarrow> has_shape 65 65 g"
  shows "seam_blend_plane self sectors_dict sx sy =
     Inr (tabulate2 (nat (sy * (65 - seam_overlap_pixels self) + seam_overlap_pixels self))
                    (nat (sx * (65 - seam_overlap_pixels self) + seam_overlap_pixels self))
            (\<lambda>y x. accumulated_value self sectors_dict sx sy y x /
                     max (accumulated_weight self sectors_dict sx sy y x) (1 / 10 ^ 10)))"
proof -
  let ?ov = "seam_overlap_pixels self"
  let ?h = "nat (sy * (65 - ?ov) + ?ov)" and ?w = "nat (sx * (65 - ?ov) + ?ov)"
  have nn: "0 \<le> sy * (65 - ?ov) + ?ov" "0 \<le> sx * (65 - ?ov) + ?ov"
    using ov size by (simp_all add: total_size_nonneg)
  then have z: "np_zeros (sy * (65 - ?ov) + ?ov) (sx * (65 - ?ov) + ?ov) =
                Inr (tabulate2 ?h ?w (\<lambda>y x. 0))"
    by (simp add: np_zeros_def replicate_tabulate2)
  have cells: "blend_cells self sectors_dict sx sy (grid_cells sx sy)
                 (tabulate2 ?h ?w (\<lambda>y x. 0), tabulate2 ?h ?w (\<lambda>y x. 0)) =
               Inr (tabulate2 ?h ?w (accumulated_value self sectors_dict sx sy),
                    tabulate2 ?h ?w (accumulated_weight self sectors_dict sx sy))"
  proof -
    have av: "accumulated_value self sectors_dict sx sy =
          (\<lambda>y x. 0 + sum_list (map (\<lambda>cell. value_contribution self sectors_dict sx sy cell y x)
                                   (grid_cells sx sy)))"
      by (simp add: fun_eq_iff accumulated_value_def)
    have aw: "accumulated_weight self sectors_dict sx sy =
          (\<lambda>y x. 0 + sum_list (map (\<lambda>cell. weight_contribution self sectors_dict sx sy cell y x)
                                   (grid_cells sx sy)))"
      by (simp add: fun_eq_iff accumulated_weight_def)
    show ?thesis
      unfolding av aw
      by (rule blend_cells_table [OF ov(2) grid_cells_bounds]) (rule shapes)
  qed
  show ?thesis
    by (simp add: seam_blend_plane_def Let_def grid_size_def z cells bind_err_def
        normalize_tabulate2)
qed

lemma apply_seam_blending_table:
  assumes ov: "1 \<le> seam_overlap_pixels self" "seam_overlap_pixels self \<le> 65"
    and size: "0 \<le> sx" "0 \<le> sy"
    and shapes: "\<And>k g. map_of sectors_dict k = Some g \<Longrightarrow> has_shape 65 65 g"
  shows "apply_seam_blending self sectors_dict sx sy =
     Inr (Some (tabulate2 (nat (sy * (65 - seam_overlap_pixels self) + seam_overlap_pixels self))
                    (nat (sx * (65 - seam_overlap_pixels self) + seam_overlap_pixels self))
            (\<lambda>y x. accumulated_value self sectors_dict sx sy y x /
                     max (accumulated_weight self sectors_dict sx sy y x) (1 / 10 ^ 10))))"
proof -
  have "0 \<le> seam_overlap_pixels self" using ov by simp
  then show ?thesis
    using ov by (simp add: apply_seam_blending_def bind_err_def
        seam_blend_plane_table [OF _ ov(2) size shapes])
qed

section \<open>Size of the blended buffers\<close>

lemma feather_append:
  "feather blend_mode overlap (es @ es') sw =
     bind_err (feather blend_mode overlap es sw) (feather blend_mode overlap es')"
  by (induction es arbitrary: sw) (simp_all add: bind_err_def split: sum.splits)

lemma feather_step_out_of_range:
  "feather_step blend_mode overlap 65 (tabulate2 65 65 f) = Inl IndexError"
  by (simp add: feather_step_def Let_def mul_col_def bind_err_def ncols_tabulate2 np_index_high)

lemma sector_weight_mask_66: "sector_weight_mask blend_mode 66 = Inl IndexError"
proof -
  have "[0..66 - 1] = [0..64] @ [65::int]" using upto_rec2 [of 0 65] by simp
  moreover have "feather blend_mode 66 [0..64] (tabulate2 65 65 (\<lambda>i j. 1)) =
      Inr (tabulate2 65 65 (\<lambda>i j. 1 * prod_list
             (map (\<lambda>e. edge_factor (blend_weight blend_mode e 66) (nat e) i j) [0..64])))"
    by (rule feather_tabulate2) auto
  ultimately show ?thesis
    by (simp add: sector_weight_mask_def np_ones_def grid_size_def replicate_tabulate2
        feather_append bind_err_def feather_step_out_of_range)
qed

lemma merge_planes_tabulate2:
  "merge_planes (tabulate2 h w r) (tabulate2 h w g) (tabulate2 h w b) =
     tabulate2 h w (\<lambda>y x. (to_uint8 (r y x), to_uint8 (g y x), to_uint8 (b y x)))"
proof -
  have "map (\<lambda>x. (to_uint8 (tabulate2 h w r ! y ! x), to_uint8 (tabulate2 h w g ! y ! x),
                   to_uint8 (tabulate2 h w b ! y ! x))) [0..<length (tabulate2 h w r ! y)] =
        map (\<lambda>x. (to_uint8 (r y x), to_uint8 (g y x), to_uint8 (b y x))) [0..<w]"
    if "y < h" for y
    using that by (simp add: tabulate2_def)
  then show ?thesis
    unfolding merge_planes_def tabulate2_length
    by (subst (4) tabulate2_def) (rule map_cong [OF refl], simp)
qed

lemma texture_plane_shape:
  assumes "\<forall>(k, t) \<in> set textures. has_shape 65 65 t"
    and "map_of (texture_plane pattern c textures) k = Some g"
  shows "has_shape 65 65 g"
proof -
  from assms(2) have "(k, g) \<in> set (texture_plane pattern c textures)" by (rule map_of_SomeD)
  then obtain t where t: "(k, t) \<in> set textures"
    and g: "g = map (map (channel c)) (if pattern \<noteq> AvatarVertical then np_flipud t else t)"
    by (auto simp: texture_plane_def)
  from t assms(1) have "has_shape 65 65 t" by auto
  then show ?thesis unfolding g by (auto simp: has_shape_def np_flipud_def)
qed

lemma tabulate2_sizes:
  assumes "0 \<le> h" "0 \<le> w"
  shows "int (length (tabulate2 (nat h) (nat w) f)) = h \<and>
         (\<forall>row \<in> set (tabulate2 (nat h) (nat w) f). int (length row) = w)"
  using assms by (auto simp: tabulate2_def)

text \<open>
  Claim C7 as stated fails: with an overlap of 66 and a one by one grid whose sector is
  loaded, building the weight mask indexes column 65 of a 65 by 65 array and raises,
  so no buffer is produced although the claimed size is 65 by 65.
\<close>

theorem seam_blending_size_counterexample:
  "(1::int) \<le> 66 \<and>
   apply_seam_blending (example_viewer\<lparr>seam_overlap_pixels := 66\<rparr>)
     [(0, replicate 65 (replicate 65 0))] 1 1 = Inl IndexError \<and>
   1 * (65 - 66) + 66 = (65::int)"
  by (simp add: apply_seam_blending_def seam_blend_plane_def Let_def grid_size_def np_zeros_def
      bind_err_def grid_cells_def blend_cell_def get_sector_index_from_position_def
      example_viewer_def sector_weight_mask_66)

text \<open>
  Claim C7, amended. For an overlap from 1 to 65, a grid without negative sides and
  sectors of 65 by 65 samples, the seam-blending path returns a height buffer and a
  texture buffer of \<open>sectors_y * (65 - overlap) + overlap\<close> rows and
  \<open>sectors_x * (65 - overlap) + overlap\<close> columns.
\<close>

theorem seam_blending_size:
  assumes "1 \<le> seam_overlap_pixels self" and "seam_overlap_pixels self \<le> 65"
    and "0 \<le> sectors_x" and "0 \<le> sectors_y"
    and "\<forall>(k, g) \<in> set sectors_dict. has_shape 65 65 g"
    and "\<forall>(k, t) \<in> set textures. has_shape 65 65 t"
  shows "(\<exists>combined. apply_seam_blending self sectors_dict sectors_x sectors_y = Inr (Some combined) \<and>
            int (length combined) = sectors_y * (65 - seam_overlap_pixels self) + seam_overlap_pixels self \<and>
            (\<forall>row \<in> set combined.
               int (length row) = sectors_x * (65 - seam_overlap_pixels self) + seam_overlap_pixels self)) \<and>
         (\<exists>combined. apply_seam_blending_texture self textures sectors_x sectors_y = Inr (Some combined) \<and>
            int (length combined) = sectors_y * (65 - seam_overlap_pixels self) + seam_overlap_pixels self \<and>
            (\<forall>row \<in> set combined.
               int (length row) = sectors_x * (65 - seam_overlap_pixels self) + seam_overlap_pixels self))"
proof -
  let ?ov = "seam_overlap_pixels self"
  have ov0: "0 \<le> ?ov" using assms(1) by simp
  have nn: "0 \<le> sectors_y * (65 - ?ov) + ?ov" "0 \<le> sectors_x * (65 - ?ov) + ?ov"
    using ov0 assms(2-4) by (simp_all add: total_size_nonneg)
  have hs: "has_shape 65 65 g" if "map_of sectors_dict k = Some g" for k g
    using map_of_SomeD [OF that] assms(5) by auto
  have height: "apply_seam_blending self sectors_dict sectors_x sectors_y =
      Inr (Some (tabulate2 (nat (sectors_y * (65 - ?ov) + ?ov)) (nat (sectors_x * (65 - ?ov) + ?ov))
        (\<lambda>y x. accumulated_value self sectors_dict sectors_x sectors_y y x /
                 max (accumulated_weight self sectors_dict sectors_x sectors_y y x) (1 / 10 ^ 10))))"
    by (rule apply_seam_blending_table [OF assms(1-4) hs])
  define P where "P c = (\<lambda>y x. accumulated_value self (texture_plane (sector_order_pattern self) c textures)
                   sectors_x sectors_y y x /
                 max (accumulated_weight self (texture_plane (sector_order_pattern self) c textures)
                        sectors_x sectors_y y x) (1 / 10 ^ 10))" for c :: nat
  have plane: "seam_blend_plane self (texture_plane (sector_order_pattern self) c textures)
        sectors_x sectors_y =
      Inr (tabulate2 (nat (sectors_y * (65 - ?ov) + ?ov)) (nat (sectors_x * (65 - ?ov) + ?ov)) (P c))"
    for c
    unfolding P_def
    by (rule seam_blend_plane_table [OF ov0 assms(2-4) texture_plane_shape [OF assms(6)]])
  have texture: "apply_seam_blending_texture self textures sectors_x sectors_y =
      Inr (Some (tabulate2 (nat (sectors_y * (65 - ?ov) + ?ov)) (nat (sectors_x * (65 - ?ov) + ?ov))
        (\<lambda>y x. (to_uint8 (P 0 y x), to_uint8 (P 1 y x), to_uint8 (P 2 y x)))))"
    using assms(1)
    by (simp add: apply_seam_blending_texture_def plane bind_err_def merge_planes_tabulate2)
  have sizes: "int (length (tabulate2 (nat (sectors_y * (65 - ?ov) + ?ov))
                                        (nat (sectors_x * (65 - ?ov) + ?ov)) f)) =
                 sectors_y * (65 - ?ov) + ?ov \<and>
               (\<forall>row \<in> set (tabulate2 (nat (sectors_y * (65 - ?ov) + ?ov))
                                        (nat (sectors_x * (65 - ?ov) + ?ov)) f).
                  int (length row) = sectors_x * (65 - ?ov) + ?ov)" for f :: "nat \<Rightarrow> nat \<Rightarrow> 'z"
    by (rule tabulate2_sizes [OF nn])
  show ?thesis
    unfolding height texture
    by (rule conjI; rule exI; rule conjI [OF refl]; rule sizes)
qed

theorem seam_blending_size_witness:
  "1 \<le> seam_overlap_pixels example_viewer \<and> seam_overlap_pixels example_viewer \<le> 65 \<and>
   has_shape 65 65 (replicate 65 (replicate 65 (1::rat))) \<and>
   (\<exists>combined. apply_seam_blending example_viewer [(0, replicate 65 (replicate 65 1))] 2 2
        = Inr (Some combined) \<and>
      int (length combined) = 128 \<and> (\<forall>row \<in> set combined. int (length row) = 128)) \<and>
   (\<exists>combined. apply_seam_blending_texture example_viewer [] 2 2 = Inr (Some combined) \<and>
      int (length combined) = 128 \<and> (\<forall>row \<in> set combined. int (length row) = 128))"
proof -
  have sh: "has_shape 65 65 (replicate 65 (replicate 65 (1::rat)))"
    by (simp add: has_shape_def)
  have ov: "seam_overlap_pixels example_viewer = 2" by (simp add: example_viewer_def)
  show ?thesis
    using seam_blending_size [of example_viewer 2 2 "[(0, replicate 65 (replicate 65 1))]" "[]"] sh
    by (simp add: ov)
qed

section \<open>The standard assembly: displayed and missing sectors\<close>

lemma place_cell_present:
  assumes "map_of (sectors_data self) (heightmap_sector_index self display_row col) = Some sector"
    and "place_cell self (display_row, col) d = Inr d'"
  shows "missing d' = missing d \<and>
         displayed d' = displayed d @ [heightmap_sector_index self display_row col]"
proof (cases "apply_pattern_to_heightmap self")
  case True
  with assms show ?thesis
    by (auto simp: place_cell_def heightmap_sector_index_def Let_def bind_err_def
        split: sum.splits option.splits if_splits)
next
  case False
  with assms show ?thesis
    by (auto simp: place_cell_def heightmap_sector_index_def Let_def bind_err_def
        split: sum.splits option.splits if_splits)
qed

lemma place_cell_lists:
  assumes "place_cell self (display_row, col) d = Inr d'"
  shows "missing d' = missing d @
           filter (\<lambda>i. map_of (sectors_data self) i = None)
             [heightmap_sector_index self display_row col] \<and>
         displayed d' = displayed d @
           filter (\<lambda>i. map_of (sectors_data self) i \<noteq> None)
             [heightmap_sector_index self display_row col]"
proof (cases "map_of (sectors_data self) (heightmap_sector_index self display_row col)")
  case None
  then show ?thesis using assms place_cell_missing [OF None, of d] by auto
next
  case (Some sector)
  then show ?thesis using place_cell_present [OF Some assms] by simp
qed

lemma place_cells_lists:
  assumes "place_cells self cells d = Inr d'"
  shows "missing d' = missing d @
           filter (\<lambda>i. map_of (sectors_data self) i = None)
             (map (\<lambda>cell. heightmap_sector_index self (fst cell) (snd cell)) cells) \<and>
         displayed d' = displayed d @
           filter (\<lambda>i. map_of (sectors_data self) i \<noteq> None)
             (map (\<lambda>cell. heightmap_sector_index self (fst cell) (snd cell)) cells)"
  using assms
proof (induction cells arbitrary: d)
  case Nil
  then show ?case by simp
next
  case (Cons cell cells)
  obtain r c where rc: "cell = (r, c)" by (cases cell)
  from Cons.prems obtain d1 where d1: "place_cell self (r, c) d = Inr d1"
    and rest: "place_cells self cells d1 = Inr d'"
    by (auto simp: rc bind_err_def split: sum.splits)
  show ?case
    using place_cell_lists [OF d1] Cons.IH [OF rest] by (simp add: rc)
qed

lemma update_display_standard:
  assumes "\<not> (enable_seam_blending self \<and> 0 < seam_overlap_pixels self)"
    and "update_display self = Inr (Some d)"
  shows "missing d =
           filter (\<lambda>i. map_of (sectors_data self) i = None)
             (map (\<lambda>cell. heightmap_sector_index self (fst cell) (snd cell))
                (grid_cells (sectors_x_var self) (sectors_y_var self))) \<and>
         displayed d =
           filter (\<lambda>i. map_of (sectors_data self) i \<noteq> None)
             (map (\<lambda>cell. heightmap_sector_index self (fst cell) (snd cell))
                (grid_cells (sectors_x_var self) (sectors_y_var self)))"
proof -
  from assms obtain d0 d1 where
    pc: "place_cells self (grid_cells (sectors_x_var self) (sectors_y_var self)) d0 = Inr d1"
    and d0: "missing d0 = []" "displayed d0 = []"
    and d: "missing d = missing d1" "displayed d = displayed d1"
    by (auto simp: update_display_def Let_def bind_err_def split: if_splits sum.splits)
  show ?thesis using place_cells_lists [OF pc] d0 d by simp
qed

lemma update_display_seam:
  assumes "enable_seam_blending self" "0 < seam_overlap_pixels self"
    and "update_display self = Inr (Some d)"
  shows "missing d = [] \<and> displayed d = map fst (sectors_data self)"
  using assms
  by (auto simp: update_display_def Let_def bind_err_def split: if_splits sum.splits option.splits)

lemma flipud_shape: "has_shape h w a \<Longrightarrow> has_shape h w (np_flipud a)"
  by (simp add: has_shape_def np_flipud_def)

lemma set_slice_ok: "has_shape 65 65 b \<Longrightarrow> \<exists>a'. set_slice a oy ox b = Inr a'"
  by (simp add: set_slice_def grid_size_def)

lemma well_shaped_data:
  "sectors_well_shaped self \<Longrightarrow> map_of (sectors_data self) k = Some g \<Longrightarrow> has_shape 65 65 g"
  by (auto simp: sectors_well_shaped_def dest: map_of_SomeD)

lemma well_shaped_textures:
  "sectors_well_shaped self \<Longrightarrow> map_of (sectors_textures self) k = Some t \<Longrightarrow> has_shape 65 65 t"
  by (auto simp: sectors_well_shaped_def dest: map_of_SomeD)

lemma place_cell_succeeds:
  assumes ws: "sectors_well_shaped self"
  shows "\<exists>d'. place_cell self cell d = Inr d'"
proof -
  obtain r c where rc: "cell = (r, c)" by (cases cell)
  let ?ti = "get_sector_index_from_position (sector_order_pattern self) r c
               (sectors_x_var self) (sectors_y_var self)"
  show ?thesis
  proof (cases "map_of (sectors_data self) (heightmap_sector_index self r c)")
    case None
    then show ?thesis using place_cell_missing [OF None, of d] by (simp add: rc)
  next
    case (Some sector)
    then have sh: "has_shape 65 65 sector" "has_shape 65 65 (np_flipud sector)"
      using well_shaped_data [OF ws] flipud_shape by blast+
    have tex: "has_shape 65 65 t \<and> has_shape 65 65 (np_flipud t)"
      if "map_of (sectors_textures self) ?ti = Some t" for t
      using that well_shaped_textures [OF ws] flipud_shape by blast
    from Some show ?thesis
      unfolding rc place_cell_def heightmap_sector_index_def
      using sh tex
      by (auto simp: Let_def bind_err_def set_slice_def grid_size_def
          split: option.splits if_splits)
  qed
qed

lemma place_cells_succeeds:
  assumes ws: "sectors_well_shaped self"
  shows "\<exists>d'. place_cells self cells d = Inr d'"
proof (induction cells arbitrary: d)
  case Nil
  then show ?case by simp
next
  case (Cons cell cells)
  obtain d1 where d1: "place_cell self cell d = Inr d1"
    using place_cell_succeeds [OF ws] by blast
  obtain d2 where "place_cells self cells d1 = Inr d2"
    using Cons.IH by blast
  with d1 show ?case by (simp add: bind_err_def)
qed

lemma update_display_standard_succeeds:
  assumes ne: "sectors_data self \<noteq> []"
    and std: "\<not> (enable_seam_blending self \<and> 0 < seam_overlap_pixels self)"
    and size: "0 \<le> sectors_x_var self" "0 \<le> sectors_y_var self"
    and ws: "sectors_well_shaped self"
  shows "\<exists>d. update_display self = Inr (Some d)"
proof -
  let ?d0 = "\<lparr>height_map = replicate (nat (sectors_y_var self * int grid_size))
                             (replicate (nat (sectors_x_var self * int grid_size)) 0),
              texture_map =
                (if enable_textures self \<and> sectors_textures self \<noteq> []
                 then Some (replicate (nat (sectors_y_var self * int grid_size))
                              (replicate (nat (sectors_x_var self * int grid_size)) (0, 0, 0)))
                 else None),
              displayed = [], missing = []\<rparr>"
  obtain d1 where d1: "place_cells self (grid_cells (sectors_x_var self) (sectors_y_var self)) ?d0
                       = Inr d1"
    using place_cells_succeeds [OF ws] by blast
  have z: "np_zeros (sectors_y_var self * int grid_size) (sectors_x_var self * int grid_size) =
           Inr (replicate (nat (sectors_y_var self * int grid_size))
                          (replicate (nat (sectors_x_var self * int grid_size)) 0))"
    using size by (simp add: np_zeros_def grid_size_def not_less)
  have "update_display self =
        Inr (Some (d1\<lparr>texture_map := map_option (rotate_texture (map_rotation self))
                                          (texture_map d1)\<rparr>))"
  proof (cases "enable_seam_blending self")
    case True
    with std have "\<not> 0 < seam_overlap_pixels self" by simp
    with ne show ?thesis
      by (simp add: update_display_def Let_def z bind_err_def d1 del: replicate.simps)
  next
    case False
    with ne show ?thesis
      by (simp add: update_display_def Let_def z bind_err_def d1 del: replicate.simps)
  qed
  then show ?thesis by blast
qed

section \<open>Loading: which sectors end up in the collection\<close>

lemma load_file_keys:
  "map_of (sectors_data (load_file py_int load_sector_texture (name, file) self)) n =
     (if file_sector_number py_int name = Some n \<and> load_single_sector file \<noteq> None
      then load_single_sector file else map_of (sectors_data self) n)"
  by (auto simp: load_file_def file_sector_number_def Let_def update_conv'
      split: option.splits)

lemma load_fold_absent:
  assumes "\<forall>(name, file) \<in> set files.
             file_sector_number py_int name \<noteq> Some n \<or> load_single_sector file = None"
  shows "map_of (sectors_data (fold (load_file py_int load_sector_texture) files self)) n =
         map_of (sectors_data self) n"
  using assms
proof (induction files arbitrary: self)
  case Nil
  then show ?case by simp
next
  case (Cons entry files)
  obtain name fl where e: "entry = (name, fl)" by (cases entry)
  from Cons.prems have here:
      "file_sector_number py_int name \<noteq> Some n \<or> load_single_sector fl = None"
    and rest: "\<forall>(name, file) \<in> set files.
             file_sector_number py_int name \<noteq> Some n \<or> load_single_sector file = None"
    by (simp_all add: e)
  have "map_of (sectors_data (load_file py_int load_sector_texture (name, fl) self)) n =
        map_of (sectors_data self) n"
    using here by (auto simp: load_file_keys)
  then show ?case using Cons.IH [OF rest] by (simp add: e)
qed

lemma load_file_kept:
  "enable_seam_blending (load_file py_int load_sector_texture entry self) = enable_seam_blending self"
  "seam_overlap_pixels (load_file py_int load_sector_texture entry self) = seam_overlap_pixels self"
  "sectors_x_var (load_file py_int load_sector_texture entry self) = sectors_x_var self"
  "sectors_y_var (load_file py_int load_sector_texture entry self) = sectors_y_var self"
  by (auto simp: load_file_def Let_def split: option.splits prod.splits)

lemma load_fold_kept:
  "enable_seam_blending (fold (load_file py_int load_sector_texture) files self) = enable_seam_blending self"
  "seam_overlap_pixels (fold (load_file py_int load_sector_texture) files self) = seam_overlap_pixels self"
  "sectors_x_var (fold (load_file py_int load_sector_texture) files self) = sectors_x_var self"
  "sectors_y_var (fold (load_file py_int load_sector_texture) files self) = sectors_y_var self"
  by (induction files arbitrary: self) (simp_all add: load_file_kept)

lemma load_sectors_kept:
  "enable_seam_blending (load_sectors py_int load_sector_texture files self) = enable_seam_blending self"
  "seam_overlap_pixels (load_sectors py_int load_sector_texture files self) = seam_overlap_pixels self"
  "sectors_x_var (load_sectors py_int load_sector_texture files self) = sectors_x_var self"
  "sectors_y_var (load_sectors py_int load_sector_texture files self) = sectors_y_var self"
  by (simp_all add: load_sectors_def load_fold_kept)

lemma load_sectors_absent:
  assumes "\<forall>(name, file) \<in> set files.
             file_sector_number py_int name \<noteq> Some n \<or> load_single_sector file = None"
  shows "map_of (sectors_data (load_sectors py_int load_sector_texture files self)) n = None"
  unfolding load_sectors_def using load_fold_absent [OF assms] by simp

text \<open>
  Claim C6, amended. A file of at least 710 and fewer than 17606 bytes does not decode
  (its rows have different lengths). Loading goes on as if the file were not there. A
  sector number that no other decodable file carries, the number of the failed file
  among them, is absent from the loaded collection, and when the standard assembly of
  the loaded viewer returns, every cell of the grid that resolves to such a number is
  in its list of missing sectors.
\<close>

theorem truncated_sector_isolated:
  assumes "710 \<le> length content" and "length content < 17606"
  shows "load_single_sector (Some content) = None \<and>
         load_sectors py_int load_sector_texture (before @ (name, Some content) # after) self =
           load_sectors py_int load_sector_texture (before @ after) self \<and>
         ((\<forall>(other, file) \<in> set (before @ after).
              file_sector_number py_int other \<noteq> Some n \<or> load_single_sector file = None) \<longrightarrow>
          map_of (sectors_data
                    (load_sectors py_int load_sector_texture (before @ (name, Some content) # after) self))
                 n = None \<and>
          (\<not> (enable_seam_blending self \<and> 0 < seam_overlap_pixels self) \<and>
           update_display
             (load_sectors py_int load_sector_texture (before @ (name, Some content) # after) self)
             = Inr (Some d) \<and>
           cell \<in> set (grid_cells (sectors_x_var self) (sectors_y_var self)) \<and>
           heightmap_sector_index
             (load_sectors py_int load_sector_texture (before @ (name, Some content) # after) self)
             (fst cell) (snd cell) = n
           \<longrightarrow> n \<in> set (missing d)))"
proof -
  let ?loaded = "load_sectors py_int load_sector_texture (before @ (name, Some content) # after) self"
  have f: "load_single_sector (Some content) = None"
    by (rule load_single_sector_truncated [OF assms])
  have skip: "?loaded = load_sectors py_int load_sector_texture (before @ after) self"
    by (rule load_sectors_skip [OF f])
  have same: "enable_seam_blending ?loaded = enable_seam_blending self"
      "seam_overlap_pixels ?loaded = seam_overlap_pixels self"
      "sectors_x_var ?loaded = sectors_x_var self" "sectors_y_var ?loaded = sectors_y_var self"
    by (simp_all add: load_sectors_kept)
  have third: "map_of (sectors_data ?loaded) n = None \<and>
      (\<not> (enable_seam_blending self \<and> 0 < seam_overlap_pixels self) \<and>
       update_display ?loaded = Inr (Some d) \<and>
       cell \<in> set (grid_cells (sectors_x_var self) (sectors_y_var self)) \<and>
       heightmap_sector_index ?loaded (fst cell) (snd cell) = n
       \<longrightarrow> n \<in> set (missing d))"
    if others: "\<forall>(other, file) \<in> set (before @ after).
              file_sector_number py_int other \<noteq> Some n \<or> load_single_sector file = None"
  proof -
    have absent: "map_of (sectors_data ?loaded) n = None"
      unfolding skip by (rule load_sectors_absent [OF others])
    have "n \<in> set (missing d)"
      if std: "\<not> (enable_seam_blending self \<and> 0 < seam_overlap_pixels self)"
        and ud: "update_display ?loaded = Inr (Some d)"
        and c: "cell \<in> set (grid_cells (sectors_x_var self) (sectors_y_var self))"
        and i: "heightmap_sector_index ?loaded (fst cell) (snd cell) = n"
    proof -
      have "\<not> (enable_seam_blending ?loaded \<and> 0 < seam_overlap_pixels ?loaded)"
        using std by (simp add: same)
      from update_display_standard [OF this ud]
      have "missing d =
           filter (\<lambda>i. map_of (sectors_data ?loaded) i = None)
             (map (\<lambda>cell. heightmap_sector_index ?loaded (fst cell) (snd cell))
                (grid_cells (sectors_x_var self) (sectors_y_var self)))"
        by (simp only: same)
      then show ?thesis using absent c i by auto
    qed
    with absent show ?thesis by blast
  qed
  from f skip third show ?thesis by blast
qed

lemma example_loaded_fields:
  "sectors_data example_loaded = [(0, replicate 65 (replicate 65 (257 / 128)))]"
  "sectors_textures example_loaded = []"
  "sectors_x_var example_loaded = 2" "sectors_y_var example_loaded = 1"
  "enable_seam_blending example_loaded = False" "apply_pattern_to_heightmap example_loaded = False"
proof -
  have bad: "load_single_sector (Some (replicate 1000 0)) = None"
    by (rule load_single_sector_truncated) simp_all
  have l: "example_loaded =
      example_row_viewer
        \<lparr>sectors_data := [(0, replicate 65 (replicate 65 (257 / 128)))],
         water_data := [(0, parse_water_from_sector (Some (replicate 17608 1)) 0)],
         sectors_textures := []\<rparr>"
    unfolding example_loaded_def load_sectors_def
    by (simp add: load_file_def example_int_def bad load_ones example_row_viewer_def
        example_viewer_def del: replicate.simps length_replicate)
  show "sectors_data example_loaded = [(0, replicate 65 (replicate 65 (257 / 128)))]"
    "sectors_textures example_loaded = []"
    "sectors_x_var example_loaded = 2" "sectors_y_var example_loaded = 1"
    "enable_seam_blending example_loaded = False" "apply_pattern_to_heightmap example_loaded = False"
    unfolding l by (simp_all add: example_row_viewer_def example_viewer_def)
qed

lemma example_loaded_display: "\<exists>d. update_display example_loaded = Inr (Some d)"
proof (rule update_display_standard_succeeds)
  show "sectors_data example_loaded \<noteq> []" by (simp add: example_loaded_fields)
  show "\<not> (enable_seam_blending example_loaded \<and> 0 < seam_overlap_pixels example_loaded)"
    by (simp add: example_loaded_fields)
  show "0 \<le> sectors_x_var example_loaded" "0 \<le> sectors_y_var example_loaded"
    by (simp_all add: example_loaded_fields)
  show "sectors_well_shaped example_loaded"
    by (simp add: sectors_well_shaped_def example_loaded_fields has_shape_def)
qed

theorem truncated_sector_isolated_witness:
  "710 \<le> length (replicate 1000 (0::byte)) \<and> length (replicate 1000 (0::byte)) < 17606 \<and>
   load_single_sector (Some (replicate 1000 0)) = None \<and>
   map_of (sectors_data example_loaded) 0 = Some (replicate 65 (replicate 65 (257 / 128))) \<and>
   map_of (sectors_data example_loaded) 1 = None \<and>
   (0, 1) \<in> set (grid_cells 2 1) \<and> heightmap_sector_index example_loaded 0 1 = 1 \<and>
   (\<exists>d. update_display example_loaded = Inr (Some d) \<and> 1 \<in> set (missing d))"
proof -
  have len: "710 \<le> length (replicate 1000 (0::byte))" "length (replicate 1000 (0::byte)) < 17606"
    by simp_all
  obtain d where d: "update_display example_loaded = Inr (Some d)"
    using example_loaded_display by blast
  have others: "\<forall>(other, file) \<in> set ([(''sd0.csdat'', Some (replicate 17608 1))] @ []).
          file_sector_number example_int other \<noteq> Some 1 \<or> load_single_sector file = None"
    by (simp add: file_sector_number_def example_int_def)
  have std: "\<not> (enable_seam_blending example_row_viewer \<and> 0 < seam_overlap_pixels example_row_viewer)"
    by (simp add: example_row_viewer_def example_viewer_def)
  have cell: "(0, 1) \<in> set (grid_cells (sectors_x_var example_row_viewer)
                                (sectors_y_var example_row_viewer))"
    by (simp add: example_row_viewer_def example_viewer_def grid_cells_def)
  have cell': "(0, 1) \<in> set (grid_cells 2 1)" by (simp add: grid_cells_def)
  have idx: "heightmap_sector_index example_loaded 0 1 = 1"
    by (simp add: heightmap_sector_index_def example_loaded_fields)
  note t = truncated_sector_isolated [OF len, of example_int "\<lambda>n. None"
      "[(''sd0.csdat'', Some (replicate 17608 1))]" "''sd1.csdat''" "[]" example_row_viewer 1
      d "(0, 1)", folded example_loaded_def]
  from t have f: "load_single_sector (Some (replicate 1000 0)) = None" by (rule conjunct1)
  from t others have absent: "map_of (sectors_data example_loaded) 1 = None" by blast
  from t others std d cell idx have "1 \<in> set (missing d)" by simp
  with d have "\<exists>d. update_display example_loaded = Inr (Some d) \<and> 1 \<in> set (missing d)"
    by blast
  with len f absent cell' idx show ?thesis by (simp add: example_loaded_fields)
qed

section \<open>Reporting of missing sectors on the two paths\<close>

lemma update_display_seam_succeeds:
  assumes ne: "sectors_data self \<noteq> []"
    and seam: "enable_seam_blending self" "1 \<le> seam_overlap_pixels self"
      "seam_overlap_pixels self \<le> 65"
    and size: "0 \<le> sectors_x_var self" "0 \<le> sectors_y_var self"
    and ws: "sectors_well_shaped self"
    and notex: "\<not> enable_textures self"
  shows "\<exists>d. update_display self = Inr (Some d)"
proof -
  let ?flipped = "map (\<lambda>(sector_num, data). (sector_num, np_flipud data)) (sectors_data self)"
  have hs: "has_shape 65 65 g" if "map_of (sectors_data self) k = Some g" for k g
    using that by (rule well_shaped_data [OF ws])
  have fs: "has_shape 65 65 g" if "map_of ?flipped k = Some g" for k g
  proof -
    from that have "(k, g) \<in> set ?flipped" by (rule map_of_SomeD)
    then obtain g0 where "(k, g0) \<in> set (sectors_data self)" "g = np_flipud g0" by auto
    then show ?thesis using ws by (auto simp: sectors_well_shaped_def intro: flipud_shape)
  qed
  have "apply_seam_blending self (sectors_data self) (sectors_x_var self) (sectors_y_var self) =
      Inr (Some (tabulate2
        (nat (sectors_y_var self * (65 - seam_overlap_pixels self) + seam_overlap_pixels self))
        (nat (sectors_x_var self * (65 - seam_overlap_pixels self) + seam_overlap_pixels self))
        (\<lambda>y x. accumulated_value self (sectors_data self) (sectors_x_var self) (sectors_y_var self) y x /
                 max (accumulated_weight self (sectors_data self) (sectors_x_var self)
                        (sectors_y_var self) y x) (1 / 10 ^ 10))))"
    by (rule apply_seam_blending_table [OF seam(2,3) size]) (rule hs)
  then have a: "\<exists>cm. apply_seam_blending self (sectors_data self) (sectors_x_var self)
             (sectors_y_var self) = Inr (Some cm)"
    by blast
  have "apply_seam_blending self ?flipped (sectors_x_var self) (sectors_y_var self) =
      Inr (Some (tabulate2
        (nat (sectors_y_var self * (65 - seam_overlap_pixels self) + seam_overlap_pixels self))
        (nat (sectors_x_var self * (65 - seam_overlap_pixels self) + seam_overlap_pixels self))
        (\<lambda>y x. accumulated_value self ?flipped (sectors_x_var self) (sectors_y_var self) y x /
                 max (accumulated_weight self ?flipped (sectors_x_var self)
                        (sectors_y_var self) y x) (1 / 10 ^ 10))))"
    by (rule apply_seam_blending_table [OF seam(2,3) size]) (rule fs)
  then have b: "\<exists>cm. apply_seam_blending self ?flipped (sectors_x_var self) (sectors_y_var self)
             = Inr (Some cm)"
    by blast
  have z: "np_zeros (sectors_y_var self * int grid_size) (sectors_x_var self * int grid_size) =
           Inr (replicate (nat (sectors_y_var self * int grid_size))
                          (replicate (nat (sectors_x_var self * int grid_size)) 0))"
    using size by (simp add: np_zeros_def grid_size_def not_less)
  have pos: "0 < seam_overlap_pixels self" using seam(2) by simp
  show ?thesis
  proof (cases "apply_pattern_to_heightmap self")
    case True
    from a obtain cm where "apply_seam_blending self (sectors_data self) (sectors_x_var self)
        (sectors_y_var self) = Inr (Some cm)" by blast
    with ne seam(1) pos notex True show ?thesis
      by (simp add: update_display_def Let_def z bind_err_def del: replicate.simps)
  next
    case False
    from b obtain cm where "apply_seam_blending self ?flipped (sectors_x_var self)
        (sectors_y_var self) = Inr (Some cm)" by blast
    with ne seam(1) pos notex False show ?thesis
      by (simp add: update_display_def Let_def z bind_err_def del: replicate.simps)
  qed
qed

lemma seam_example_fields:
  "sectors_data seam_example =
     [(0, replicate 65 (replicate 65 1)), (1, replicate 65 (replicate 65 1)),
      (2, replicate 65 (replicate 65 1))]"
  "sectors_textures seam_example = []" "enable_textures seam_example = False"
  "sectors_x_var seam_example = 2" "sectors_y_var seam_example = 2"
  "enable_seam_blending seam_example = True" "seam_overlap_pixels seam_example = 2"
  "apply_pattern_to_heightmap seam_example = False"
  by (simp_all add: seam_example_def example_viewer_def)

lemma seam_example_shaped:
  "sectors_well_shaped seam_example"
  "sectors_well_shaped (seam_example\<lparr>enable_seam_blending := b\<rparr>)"
  by (simp_all add: sectors_well_shaped_def seam_example_fields has_shape_def)

lemma grid_cells_2_2: "grid_cells 2 2 = [(0, 0), (0, 1), (1, 0), (1, 1)]"
  by (simp add: grid_cells_def upto.simps)

text \<open>
  Claim C5 on the code. The collection lacks sector 3, which the cell of row 0 and
  column 1 of the two by two grid resolves to. With seam blending the composite returns
  and reports no missing sector; the same request without seam blending reports one.
\<close>

theorem seam_path_missing_count:
  "map_of (sectors_data seam_example) 3 = None \<and>
   (0, 1) \<in> set (grid_cells 2 2) \<and> heightmap_sector_index seam_example 0 1 = 3 \<and>
   (\<exists>d. update_display seam_example = Inr (Some d) \<and>
        missing_count d = 0 \<and> displayed_count d = 3) \<and>
   (\<exists>d. update_display (seam_example\<lparr>enable_seam_blending := False\<rparr>) = Inr (Some d) \<and>
        missing_count d = 1 \<and> displayed_count d = 3)"
proof -
  have absent: "map_of (sectors_data seam_example) 3 = None"
    by (simp add: seam_example_fields)
  have idx: "heightmap_sector_index seam_example 0 1 = 3"
    by (simp add: heightmap_sector_index_def seam_example_fields)
  obtain d where d: "update_display seam_example = Inr (Some d)"
    using update_display_seam_succeeds [of seam_example] seam_example_shaped(1)
    by (auto simp: seam_example_fields)
  have "missing d = [] \<and> displayed d = map fst (sectors_data seam_example)"
    by (rule update_display_seam [OF _ _ d]) (simp_all add: seam_example_fields)
  then have seam: "missing_count d = 0 \<and> displayed_count d = 3"
    by (simp add: missing_count_def displayed_count_def seam_example_fields)
  let ?std = "seam_example\<lparr>enable_seam_blending := False\<rparr>"
  obtain d' where d': "update_display ?std = Inr (Some d')"
    using update_display_standard_succeeds [of ?std] seam_example_shaped(2) [of False]
    by (auto simp: seam_example_fields)
  have "missing d' =
           filter (\<lambda>i. map_of (sectors_data ?std) i = None)
             (map (\<lambda>cell. heightmap_sector_index ?std (fst cell) (snd cell))
                (grid_cells (sectors_x_var ?std) (sectors_y_var ?std))) \<and>
         displayed d' =
           filter (\<lambda>i. map_of (sectors_data ?std) i \<noteq> None)
             (map (\<lambda>cell. heightmap_sector_index ?std (fst cell) (snd cell))
                (grid_cells (sectors_x_var ?std) (sectors_y_var ?std)))"
    by (rule update_display_standard [OF _ d']) simp
  then have std: "missing_count d' = 1 \<and> displayed_count d' = 3"
    by (simp add: missing_count_def displayed_count_def seam_example_fields grid_cells_2_2
        heightmap_sector_index_def)
  from absent idx d seam d' std show ?thesis
    by (auto simp: grid_cells_2_2)
qed

section \<open>Rotation\<close>

lemma place_cell_rotation:
  "place_cell (self\<lparr>map_rotation := r\<rparr>) cell d = place_cell self cell d"
  by (cases cell) (simp add: place_cell_def Let_def cong: option.case_cong sum.case_cong if_cong)

lemma place_cells_rotation:
  "place_cells (self\<lparr>map_rotation := r\<rparr>) cells = place_cells self cells"
proof (induction cells)
  case Nil
  show ?case by (rule ext) simp
next
  case (Cons cell cells)
  show ?case by (rule ext) (simp add: place_cell_rotation Cons.IH)
qed

lemma blend_cell_rotation:
  "blend_cell (self\<lparr>map_rotation := r\<rparr>) sectors_dict sx sy cell acc =
   blend_cell self sectors_dict sx sy cell acc"
  by (cases cell; cases acc) (simp add: blend_cell_def Let_def cong: option.case_cong if_cong)

lemma blend_cells_rotation:
  "blend_cells (self\<lparr>map_rotation := r\<rparr>) sectors_dict sx sy cells =
   blend_cells self sectors_dict sx sy cells"
proof (induction cells)
  case Nil
  show ?case by (rule ext) simp
next
  case (Cons cell cells)
  show ?case by (rule ext) (simp add: blend_cell_rotation Cons.IH)
qed

lemma seam_blend_plane_rotation:
  "seam_blend_plane (self\<lparr>map_rotation := r\<rparr>) sectors_dict sx sy =
   seam_blend_plane self sectors_dict sx sy"
  by (simp add: seam_blend_plane_def blend_cells_rotation)

lemma apply_seam_blending_rotation:
  "apply_seam_blending (self\<lparr>map_rotation := r\<rparr>) sectors_dict sx sy =
   apply_seam_blending self sectors_dict sx sy"
  by (simp add: apply_seam_blending_def seam_blend_plane_rotation)

lemma apply_seam_blending_texture_rotation:
  "apply_seam_blending_texture (self\<lparr>map_rotation := r\<rparr>) textures sx sy =
   apply_seam_blending_texture self textures sx sy"
  by (simp add: apply_seam_blending_texture_def seam_blend_plane_rotation)

lemma rotate_texture_0: "rotate_texture 0 t = t"
  by (simp add: rotate_texture_def)

lemma map_sum_bind_err:
  "map_sum id g (bind_err m k) = bind_err m (\<lambda>x. map_sum id g (k x))"
  by (cases m) (simp_all add: bind_err_def)

lemma update_display_rotation:
  "update_display (self\<lparr>map_rotation := r\<rparr>) =
     map_sum id (map_option (\<lambda>d. d\<lparr>texture_map := map_option (rotate_texture r) (texture_map d)\<rparr>))
       (update_display (self\<lparr>map_rotation := 0\<rparr>))"
proof -
  have unrot: "d\<lparr>texture_map := map_option (rotate_texture 0) (texture_map d)\<rparr> = d" for d :: display
    by (cases "texture_map d") (simp_all add: rotate_texture_0)
  show ?thesis
    unfolding update_display_def
    by (simp add: Let_def place_cells_rotation apply_seam_blending_rotation
        apply_seam_blending_texture_rotation map_sum_bind_err unrot
        if_distrib [of "map_sum id (map_option (\<lambda>d. d\<lparr>texture_map := map_option (rotate_texture r) (texture_map d)\<rparr>))"]
        split del: if_split cong: if_cong option.case_cong)
qed

lemma rev_map_upt: "rev (map g [0..<n]) = map (\<lambda>j. g (n - 1 - j)) [0..<n]"
  by (rule nth_equalityI) (simp_all add: rev_nth)

lemma np_fliplr_tabulate2:
  "np_fliplr (tabulate2 h w f) = tabulate2 h w (\<lambda>i j. f i (w - 1 - j))"
  by (simp add: np_fliplr_def tabulate2_def rev_map_upt)

lemma np_flipud_tabulate2:
  "np_flipud (tabulate2 h w f) = tabulate2 h w (\<lambda>i j. f (h - 1 - i) j)"
  by (simp add: np_flipud_def tabulate2_def rev_map_upt)

lemma np_transpose_tabulate2:
  assumes "0 < h"
  shows "np_transpose (tabulate2 h w f) = tabulate2 w h (\<lambda>i j. f j i)"
proof -
  have "map (\<lambda>row. row ! j) (tabulate2 h w f) = map (\<lambda>y. f y j) [0..<h]" if "j < w" for j
    using that by (simp add: tabulate2_def)
  then show ?thesis
    unfolding np_transpose_def ncols_tabulate2 [OF assms]
    by (subst (2) tabulate2_def) (rule map_cong [OF refl], simp)
qed

lemma rotate_texture_meaning:
  assumes "has_shape h w t" and "0 < h"
  shows "rotate_texture 90 t = tabulate2 w h (\<lambda>i j. t ! (h - 1 - j) ! i)"
    and "rotate_texture 180 t = tabulate2 h w (\<lambda>i j. t ! (h - 1 - i) ! (w - 1 - j))"
    and "rotate_texture 270 t = tabulate2 w h (\<lambda>i j. t ! j ! (w - 1 - i))"
proof -
  have t: "t = tabulate2 h w (\<lambda>y x. t ! y ! x)" using assms(1) by (rule shape_tabulate2)
  have "rotate_texture 90 (tabulate2 h w (\<lambda>y x. t ! y ! x)) =
        tabulate2 w h (\<lambda>i j. t ! (h - 1 - j) ! i)"
    by (simp add: rotate_texture_def np_rot90_def np_transpose_tabulate2 [OF assms(2)]
        np_fliplr_tabulate2)
  then show "rotate_texture 90 t = tabulate2 w h (\<lambda>i j. t ! (h - 1 - j) ! i)"
    using t by simp
  have "rotate_texture 180 (tabulate2 h w (\<lambda>y x. t ! y ! x)) =
        tabulate2 h w (\<lambda>i j. t ! (h - 1 - i) ! (w - 1 - j))"
    by (simp add: rotate_texture_def np_rot90_def np_flipud_tabulate2 np_fliplr_tabulate2)
  then show "rotate_texture 180 t = tabulate2 h w (\<lambda>i j. t ! (h - 1 - i) ! (w - 1 - j))"
    using t by simp
  have "rotate_texture 270 (tabulate2 h w (\<lambda>y x. t ! y ! x)) =
        tabulate2 w h (\<lambda>i j. t ! j ! (w - 1 - i))"
    by (simp add: rotate_texture_def np_rot90_def np_transpose_tabulate2 [OF assms(2)]
        np_fliplr_tabulate2)
  then show "rotate_texture 270 t = tabulate2 w h (\<lambda>i j. t ! j ! (w - 1 - i))"
    using t by simp
qed

text \<open>
  Claim C8. Two composite requests that differ only in the rotation give the same height
  buffer (and fail alike); the request with rotation \<open>r\<close> gives what the request with
  rotation 0 gives, with the texture buffer rotated. Rotating a texture of \<open>h\<close> rows
  and \<open>w\<close> columns by 90 degrees is the quarter turn clockwise (the pixel in row \<open>i\<close>
  and column \<open>j\<close> comes from row \<open>h - 1 - j\<close> and column \<open>i\<close>), by 180 degrees the
  half turn, by 270 degrees the quarter turn counter-clockwise.
\<close>

theorem rotation_affects_texture_only:
  "map_sum id (map_option height_map) (update_display (self\<lparr>map_rotation := r\<rparr>)) =
     map_sum id (map_option height_map) (update_display (self\<lparr>map_rotation := r'\<rparr>)) \<and>
   update_display (self\<lparr>map_rotation := r\<rparr>) =
     map_sum id (map_option (\<lambda>d. d\<lparr>texture_map := map_option (rotate_texture r) (texture_map d)\<rparr>))
       (update_display (self\<lparr>map_rotation := 0\<rparr>)) \<and>
   (has_shape h w t \<and> 0 < h \<longrightarrow>
      rotate_texture 0 t = t \<and>
      rotate_texture 90 t = tabulate2 w h (\<lambda>i j. t ! (h - 1 - j) ! i) \<and>
      rotate_texture 180 t = tabulate2 h w (\<lambda>i j. t ! (h - 1 - i) ! (w - 1 - j)) \<and>
      rotate_texture 270 t = tabulate2 w h (\<lambda>i j. t ! j ! (w - 1 - i)))"
proof -
  have heights: "map_sum id (map_option height_map)
          (map_sum id (map_option (\<lambda>d. d\<lparr>texture_map := map_option (rotate_texture q) (texture_map d)\<rparr>)) m)
        = map_sum id (map_option height_map) m" for q and m :: "error + display option"
    by (cases m) (simp_all add: option.map_comp comp_def)
  have h0: "map_sum id (map_option height_map) (update_display (self\<lparr>map_rotation := q\<rparr>)) =
        map_sum id (map_option height_map) (update_display (self\<lparr>map_rotation := 0\<rparr>))" for q
    by (subst update_display_rotation) (rule heights)
  have first: "map_sum id (map_option height_map) (update_display (self\<lparr>map_rotation := r\<rparr>)) =
     map_sum id (map_option height_map) (update_display (self\<lparr>map_rotation := r'\<rparr>))"
    using h0 [of r] h0 [of r'] by (rule trans [OF _ sym])
  show ?thesis
    using first update_display_rotation [where self = self and r = r]
      rotate_texture_meaning [where h = h and w = w and t = t] rotate_texture_0 [where t = t]
    by blast
qed

theorem rotation_affects_texture_only_witness:
  "map_sum id (map_option height_map) (update_display (example_loaded\<lparr>map_rotation := 90\<rparr>)) =
     map_sum id (map_option height_map) (update_display (example_loaded\<lparr>map_rotation := 270\<rparr>)) \<and>
   has_shape 2 3 [[1, 2, 3], [4, 5, 6 :: nat]] \<and> (0::nat) < 2 \<and>
   rotate_texture 90 [[1, 2, 3], [4, 5, 6 :: nat]] = [[4, 1], [5, 2], [6, 3]] \<and>
   rotate_texture 180 [[1, 2, 3], [4, 5, 6 :: nat]] = [[6, 5, 4], [3, 2, 1]] \<and>
   rotate_texture 270 [[1, 2, 3], [4, 5, 6 :: nat]] = [[3, 6], [2, 5], [1, 4]]"
proof -
  let ?t = "[[1, 2, 3], [4, 5, 6 :: nat]]"
  have sh: "has_shape 2 3 ?t \<and> (0::nat) < 2" by (simp add: has_shape_def)
  have u2: "[0..<2] = [0, 1]" and u3: "[0..<3] = [0, 1, 2]" by (simp_all add: upt_rec)
  note t = rotation_affects_texture_only [where self = example_loaded and r = 90 and r' = 270
        and h = 2 and w = 3 and t = ?t]
  from t have heights:
    "map_sum id (map_option height_map) (update_display (example_loaded\<lparr>map_rotation := 90\<rparr>)) =
     map_sum id (map_option height_map) (update_display (example_loaded\<lparr>map_rotation := 270\<rparr>))"
    by (rule conjunct1)
  from t sh have turns:
    "rotate_texture 90 ?t = tabulate2 3 2 (\<lambda>i j. ?t ! (2 - 1 - j) ! i)"
    "rotate_texture 180 ?t = tabulate2 2 3 (\<lambda>i j. ?t ! (2 - 1 - i) ! (3 - 1 - j))"
    "rotate_texture 270 ?t = tabulate2 3 2 (\<lambda>i j. ?t ! j ! (3 - 1 - i))"
    by blast+
  have "rotate_texture 90 ?t = [[4, 1], [5, 2], [6, 3]]"
    "rotate_texture 180 ?t = [[6, 5, 4], [3, 2, 1]]"
    "rotate_texture 270 ?t = [[3, 6], [2, 5], [1, 4]]"
    unfolding turns by (simp_all add: tabulate2_def u2 u3)
  with heights sh show ?thesis by blast
qed

section \<open>Weights of the feathered mask\<close>














section \<open>Blending sectors of one constant value\<close>











section \<open>The pixels that a fully populated grid covers\<close>





end
